theory Spec2Isabelle
  imports Complex_Main
begin

section \<open>Python floats: IEEE 754 binary64, round to nearest, ties to even\<close>

text \<open>
  A Python \<^verbatim>\<open>float\<close> is a C double. A finite one is \<open>Fin s m e\<close>, standing for
  \<open>(-1)^s * m * 2^e\<close>: \<open>s\<close> is the sign bit (True for negative), \<open>m\<close> the
  53-bit significand and \<open>e\<close> the exponent of its last bit. The two zeros are
  \<open>Fin False 0 (-1074)\<close> and \<open>Fin True 0 (-1074)\<close>.
\<close>

datatype pyfloat = NaN | Inf bool | Fin bool nat int

text \<open>The doubles among the values of the datatype: normal numbers have a significand
  of exactly 53 bits, subnormal numbers and the zeros sit at the least exponent.\<close>

fun is_double :: "pyfloat \<Rightarrow> bool" where
  "is_double NaN = True"
| "is_double (Inf s) = True"
| "is_double (Fin s m e) =
     (m < 2 ^ 53 \<and> - 1074 \<le> e \<and> e \<le> 971 \<and> (m < 2 ^ 52 \<longrightarrow> e = - 1074))"

fun is_finite :: "pyfloat \<Rightarrow> bool" where
  "is_finite (Fin s m e) = True"
| "is_finite _ = False"

fun is_nan :: "pyfloat \<Rightarrow> bool" where
  "is_nan NaN = True"
| "is_nan _ = False"

text \<open>The real number a finite float stands for (0 for the others, which no theorem uses).\<close>

fun valof :: "pyfloat \<Rightarrow> real" where
  "valof (Fin s m e) = (if s then - 1 else 1) * real m * 2 powi e"
| "valof _ = 0"

text \<open>\<^verbatim>\<open>int.bit_length\<close>: the number of binary digits of a natural number.\<close>

fun bit_length :: "nat \<Rightarrow> nat" where
  "bit_length n = (if n = 0 then 0 else Suc (bit_length (n div 2)))"

declare bit_length.simps [simp del]

text \<open>\<open>round_even M sh\<close> is \<open>M / 2^sh\<close> rounded to the nearest integer, a tie going to
  the even one.\<close>

definition round_even :: "nat \<Rightarrow> nat \<Rightarrow> nat" where
  "round_even M sh =
     (let q = M div 2 ^ sh; r = M mod 2 ^ sh
      in if 2 ^ sh < 2 * r \<or> (2 * r = 2 ^ sh \<and> odd q) then q + 1 else q)"

text \<open>
  \<open>pack s M e\<close> rounds the nonzero number \<open>(-1)^s * M * 2^e\<close> to a double. \<open>sh\<close> is
  the number of low bits that do not fit: those beyond 53 significant bits, or those below
  the subnormal grid \<open>2^-1074\<close>. When nothing has to go, the number is exact and its
  significand is shifted left as far as the format allows. A carry out of the rounding
  gives \<open>2^53\<close>, which is \<open>2^52\<close> one exponent higher. Beyond the largest exponent
  the result is an infinity.
\<close>

definition pack :: "bool \<Rightarrow> nat \<Rightarrow> int \<Rightarrow> pyfloat" where
  "pack s M e =
     (let sh = max (int (bit_length M) - 53) (- 1074 - e);
          q = (if sh \<le> 0 then M * 2 ^ nat (- sh) else round_even M (nat sh));
          q' = (if q = 2 ^ 53 then 2 ^ 52 else q);
          e' = (if q = 2 ^ 53 then e + sh + 1 else e + sh)
      in if 971 < e' then Inf s else Fin s q' e')"

text \<open>The integer \<open>(-1)^s * m\<close>.\<close>

definition signed :: "bool \<Rightarrow> nat \<Rightarrow> int" where
  "signed s m = (if s then - int m else int m)"

text \<open>
  Python's \<^verbatim>\<open>x + y\<close> on floats. The exact sum of two finite doubles is an integer
  multiple of \<open>2^(min e1 e2)\<close>; it is rounded once. An exact zero sum is \<open>+0\<close>, unless
  both operands are \<open>-0\<close>. Overflow gives an infinity, no exception.
\<close>

fun fadd :: "pyfloat \<Rightarrow> pyfloat \<Rightarrow> pyfloat" where
  "fadd NaN y = NaN"
| "fadd x NaN = NaN"
| "fadd (Inf s) (Inf t) = (if s = t then Inf s else NaN)"
| "fadd (Inf s) (Fin t m e) = Inf s"
| "fadd (Fin s m e) (Inf t) = Inf t"
| "fadd (Fin s1 m1 e1) (Fin s2 m2 e2) =
     (let e = min e1 e2;
          z = signed s1 (m1 * 2 ^ nat (e1 - e)) + signed s2 (m2 * 2 ^ nat (e2 - e))
      in if z = 0 then Fin (s1 \<and> s2) 0 (- 1074) else pack (z < 0) (nat \<bar>z\<bar>) e)"

fun fneg :: "pyfloat \<Rightarrow> pyfloat" where
  "fneg NaN = NaN"
| "fneg (Inf s) = Inf (\<not> s)"
| "fneg (Fin s m e) = Fin (\<not> s) m e"

text \<open>Python's \<^verbatim>\<open>x - y\<close> on floats: IEEE subtraction is the addition of the negated
  operand.\<close>

definition fsub :: "pyfloat \<Rightarrow> pyfloat \<Rightarrow> pyfloat" where
  "fsub x y = fadd x (fneg y)"

text \<open>Python's \<^verbatim>\<open>x == y\<close> on floats: NaN equals nothing, itself included, and the two
  zeros are equal. Finite numbers are compared as the integers they are on the finer of
  their two grids.\<close>

fun float_eq :: "pyfloat \<Rightarrow> pyfloat \<Rightarrow> bool" where
  "float_eq (Fin s1 m1 e1) (Fin s2 m2 e2) =
     (signed s1 (m1 * 2 ^ nat (e1 - min e1 e2)) = signed s2 (m2 * 2 ^ nat (e2 - min e1 e2)))"
| "float_eq (Inf s) (Inf t) = (s = t)"
| "float_eq x y = False"

text \<open>
  The double a decimal literal \<open>n / 10^d\<close> denotes (\<^verbatim>\<open>0.241\<close> is \<open>float_of_decimal 241 3\<close>):
  the nearest double, ties to even. The quotient is computed with \<open>p\<close> extra binary
  digits, enough for at least 55 significant bits, and one more digit is appended that
  says whether the division left a remainder; that digit is below the rounding position,
  so \<open>pack\<close> rounds the pair as it would round the exact quotient.
\<close>

definition float_of_decimal :: "nat \<Rightarrow> nat \<Rightarrow> pyfloat" where
  "float_of_decimal n d =
     (if n = 0 then Fin False 0 (- 1074)
      else let p = 55 + bit_length (10 ^ d);
               X = n * 2 ^ p
           in pack False (2 * (X div 10 ^ d) + (if X mod 10 ^ d = 0 then 0 else 1))
                (- int p - 1))"

text \<open>
  Python's \<^verbatim>\<open>f"{x:.3f}"\<close>: the exact value of the double, rounded to three decimals
  (ties to even), with the sign bit printed also when the digits are all zero.
\<close>

definition digit_char :: "nat \<Rightarrow> char" where
  "digit_char n = ''0123456789'' ! n"

fun digits :: "nat \<Rightarrow> string" where
  "digits n =
     (if n < 10 then [digit_char n] else digits (n div 10) @ [digit_char (n mod 10)])"

declare digits.simps [simp del]

definition thousandths :: "nat \<Rightarrow> int \<Rightarrow> nat" where
  "thousandths m e =
     (if 0 \<le> e then m * 1000 * 2 ^ nat e
      else let q = m * 1000 div 2 ^ nat (- e); r = m * 1000 mod 2 ^ nat (- e)
           in if 2 ^ nat (- e) < 2 * r \<or> (2 * r = 2 ^ nat (- e) \<and> odd q) then q + 1 else q)"

fun format_3f :: "pyfloat \<Rightarrow> string" where
  "format_3f NaN = ''nan''"
| "format_3f (Inf s) = (if s then ''-inf'' else ''inf'')"
| "format_3f (Fin s m e) =
     (let n = thousandths m e; f = n mod 1000
      in (if s then ''-'' else []) @ digits (n div 1000) @ ''.''
           @ [digit_char (f div 100), digit_char (f div 10 mod 10), digit_char (f mod 10)])"

section \<open>The reference table\<close>

text \<open>The exceptions of Python that the program's operations can name. A \<^verbatim>\<open>KeyError\<close>
  carries the key that was not found.\<close>

datatype py_error = KeyError string | ValueError | OverflowError

text \<open>
  \<^verbatim>\<open>REFERENCE_POTENTIALS\<close>, the dictionary of app.py, as its items in the order of the
  literal. Keys are Python strings, held here as their UTF-8 bytes: the subscript digits
  of the sulfate formulas (U+2082, U+2084) are three bytes each. Values are the doubles
  that the decimal literals denote.
\<close>

definition REFERENCE_POTENTIALS :: "(string \<times> pyfloat) list" where
  "REFERENCE_POTENTIALS =
     [(''NHE (Normal Hydrogen)'', float_of_decimal 0 3),
      (''SHE (Standard Hydrogen)'', float_of_decimal 0 3),
      (''Calomel (Sat'd KCl)'', float_of_decimal 241 3),
      (''Calomel (3.5M KCl)'', float_of_decimal 250 3),
      (''Calomel (1M KCl)'', float_of_decimal 280 3),
      (''Calomel (0.1M KCl)'', float_of_decimal 334 3),
      (''Ag/AgCl (Sat'd KCl)'', float_of_decimal 197 3),
      (''Ag/AgCl (3.5M KCl)'', float_of_decimal 205 3),
      (''Ag/AgCl (3M KCl)'', float_of_decimal 210 3),
      (''Ag/AgCl (0.1M KCl)'', float_of_decimal 288 3),
      (''Mercury/Mercurous Sulfate (0.5M H'' @ [CHR 0xE2, CHR 0x82, CHR 0x82] @ ''SO''
         @ [CHR 0xE2, CHR 0x82, CHR 0x84] @ '')'', float_of_decimal 682 3),
      (''Mercury/Mercurous Sulfate (1M H'' @ [CHR 0xE2, CHR 0x82, CHR 0x82] @ ''SO''
         @ [CHR 0xE2, CHR 0x82, CHR 0x84] @ '')'', float_of_decimal 674 3),
      (''Mercury/Mercurous Sulfate (Sat'd K'' @ [CHR 0xE2, CHR 0x82, CHR 0x82] @ ''SO''
         @ [CHR 0xE2, CHR 0x82, CHR 0x84] @ '')'', float_of_decimal 640 3),
      (''Hg/HgO (1M NaOH)'', float_of_decimal 98 3),
      (''Hg/HgO (20% KOH)'', float_of_decimal 95 3),
      (''Silver/Silver Sulfate (Sat'd K'' @ [CHR 0xE2, CHR 0x82, CHR 0x82] @ ''SO''
         @ [CHR 0xE2, CHR 0x82, CHR 0x84] @ '')'', float_of_decimal 654 3)]"

text \<open>\<^verbatim>\<open>list(d.keys())\<close>, in insertion order.\<close>

definition keys :: "(string \<times> pyfloat) list \<Rightarrow> string list" where
  "keys d = map fst d"

text \<open>\<^verbatim>\<open>d[k]\<close>: the value stored under the key, or \<^verbatim>\<open>KeyError(k)\<close>.\<close>

definition getitem :: "(string \<times> pyfloat) list \<Rightarrow> string \<Rightarrow> py_error + pyfloat" where
  "getitem d k = (case map_of d k of None \<Rightarrow> Inl (KeyError k) | Some v \<Rightarrow> Inr v)"

section \<open>The converter\<close>

text \<open>
  \<^verbatim>\<open>convert_potential\<close> of app.py. The two lookups happen in the order of the source:
  \<^verbatim>\<open>from_ref\<close> first, so an unknown \<^verbatim>\<open>from_ref\<close> is the key the error reports.
\<close>

definition convert_potential :: "pyfloat \<Rightarrow> string \<Rightarrow> string \<Rightarrow> py_error + pyfloat" where
  "convert_potential potential from_ref to_ref =
     (case getitem REFERENCE_POTENTIALS from_ref of
        Inl err \<Rightarrow> Inl err
      | Inr a \<Rightarrow>
          (let potential_vs_she = fadd potential a
           in case getitem REFERENCE_POTENTIALS to_ref of
                Inl err \<Rightarrow> Inl err
              | Inr b \<Rightarrow> Inr (fsub potential_vs_she b)))"

section \<open>The page script and its session state\<close>

text \<open>One row of the conversion history, the dictionary appended by the Convert handler.\<close>

record history_entry =
  Input_Potential :: string
  From_Reference :: string
  To_Reference :: string
  Result :: string
  Timestamp :: string

text \<open>\<^verbatim>\<open>st.session_state\<close>: the three keys the script uses, each present or absent.\<close>

record session_state =
  ss_from_ref :: "string option"
  ss_to_ref :: "string option"
  conversion_history :: "history_entry list option"

text \<open>What the framework hands to one run of the script: the values its widgets return,
  and the clock reading \<^verbatim>\<open>pd.Timestamp.now().strftime("%H:%M:%S")\<close>.\<close>

record widgets =
  potential_value :: pyfloat
  from_selectbox :: string
  to_selectbox :: string
  swap_button :: bool
  convert_button :: bool
  clear_button :: bool
  clock :: string

text \<open>How a run of the script ends: at its last line, at \<^verbatim>\<open>st.experimental_rerun()\<close>,
  or at an uncaught exception.\<close>

datatype run_end = Completed | Rerun | Raised py_error

text \<open>The history as a list: an absent key shows as no history.\<close>

definition history :: "session_state \<Rightarrow> history_entry list" where
  "history ss = (case conversion_history ss of None \<Rightarrow> [] | Some h \<Rightarrow> h)"

text \<open>
  The body of \<^verbatim>\<open>if st.button("Convert")\<close>. The conversion comes first; when it raises,
  the lines that touch the history are never reached and the state is the one the
  handler was entered with.
\<close>

definition convert_handler ::
  "pyfloat \<Rightarrow> string \<Rightarrow> string \<Rightarrow> string \<Rightarrow> session_state \<Rightarrow> session_state \<times> (py_error + pyfloat)" where
  "convert_handler potential from_ref to_ref now ss =
     (case convert_potential potential from_ref to_ref of
        Inl err \<Rightarrow> (ss, Inl err)
      | Inr converted_value \<Rightarrow>
          (let ss1 = (if conversion_history ss = None
                      then ss\<lparr>conversion_history := Some []\<rparr> else ss);
               entry = \<lparr>Input_Potential = format_3f potential @ '' V'',
                        From_Reference = from_ref,
                        To_Reference = to_ref,
                        Result = format_3f converted_value @ '' V'',
                        Timestamp = now\<rparr>
           in (ss1\<lparr>conversion_history := Some (history ss1 @ [entry])\<rparr>,
               Inr converted_value)))"

text \<open>The body of \<^verbatim>\<open>if st.button("Clear History")\<close>, up to the rerun.\<close>

definition clear_handler :: "session_state \<Rightarrow> session_state" where
  "clear_handler ss = ss\<lparr>conversion_history := Some []\<rparr>"

text \<open>The history column: the Clear button exists only while the history is not empty.\<close>

definition history_section :: "widgets \<Rightarrow> session_state \<Rightarrow> session_state \<times> run_end" where
  "history_section w ss =
     (if history ss \<noteq> [] then
        (if clear_button w then (clear_handler ss, Rerun) else (ss, Completed))
      else (ss, Completed))"

text \<open>
  One run of app.py from top to bottom, rendering left out. The Swap handler stores the
  exchanged selections and ends the run at once. Otherwise stored selections, when
  present, replace the values of the select boxes for this run and are deleted.
\<close>

definition script :: "widgets \<Rightarrow> session_state \<Rightarrow> session_state \<times> run_end" where
  "script w ss =
     (if swap_button w then
        (ss\<lparr>ss_from_ref := Some (to_selectbox w), ss_to_ref := Some (from_selectbox w)\<rparr>,
         Rerun)
      else
        (let from_ref = (case ss_from_ref ss of Some f \<Rightarrow> f | None \<Rightarrow> from_selectbox w);
             to_ref = (case ss_to_ref ss of Some t \<Rightarrow> t | None \<Rightarrow> to_selectbox w);
             ss1 = ss\<lparr>ss_from_ref := None, ss_to_ref := None\<rparr>
         in if convert_button w then
              (case convert_handler (potential_value w) from_ref to_ref (clock w) ss1 of
                 (ss2, Inl err) \<Rightarrow> (ss2, Raised err)
               | (ss2, Inr converted_value) \<Rightarrow> history_section w ss2)
            else history_section w ss1))"

section \<open>Bit lengths and rounding of integers\<close>

text \<open>
  The lemmas of this and the next sections establish, for every input, what the
  arithmetic above does: \<open>bit_length\<close> brackets a number between two powers of two,
  and \<open>round_even\<close> moves a quotient by at most half a unit.
\<close>

lemma bit_length_upper: "n < 2 ^ bit_length n"
proof (induction n rule: bit_length.induct)
  case (1 n)
  show ?case
  proof (cases "n = 0")
    case True
    then show ?thesis by (simp add: bit_length.simps)
  next
    case False
    with 1 have "n div 2 < 2 ^ bit_length (n div 2)" by simp
    then have "n < 2 * 2 ^ bit_length (n div 2)" by linarith
    with False show ?thesis by (subst bit_length.simps) simp
  qed
qed

lemma bit_length_lower: "0 < n \<Longrightarrow> 2 ^ (bit_length n - 1) \<le> n"
proof (induction n rule: bit_length.induct)
  case (1 n)
  then have n: "n \<noteq> 0" by simp
  show ?case
  proof (cases "n div 2 = 0")
    case True
    with n have "bit_length n = 1" by (simp add: bit_length.simps [of n] bit_length.simps [of 0])
    with 1 show ?thesis by simp
  next
    case False
    with 1 n have ih: "2 ^ (bit_length (n div 2) - 1) \<le> n div 2" by simp
    from False have "bit_length (n div 2) \<noteq> 0" by (simp add: bit_length.simps [of "n div 2"])
    then obtain k where k: "bit_length (n div 2) = Suc k" by (cases "bit_length (n div 2)") auto
    with ih have "2 * 2 ^ k \<le> n" by simp
    moreover from n k have "bit_length n = Suc (Suc k)" by (simp add: bit_length.simps [of n])
    ultimately show ?thesis by simp
  qed
qed

lemma bit_length_pos: "0 < n \<Longrightarrow> 0 < bit_length n"
  by (subst bit_length.simps) simp

lemma bit_length_le: "n < 2 ^ k \<Longrightarrow> bit_length n \<le> k"
proof (rule ccontr)
  assume a: "n < 2 ^ k" and b: "\<not> bit_length n \<le> k"
  then have "0 < n" by (cases "n = 0") (simp_all add: bit_length.simps)
  from bit_length_lower [OF this] have "2 ^ (bit_length n - 1) \<le> n" .
  moreover from b have "(2::nat) ^ k \<le> 2 ^ (bit_length n - 1)"
    by (intro power_increasing) auto
  ultimately show False using a by linarith
qed

lemma round_even_cases:
  "round_even M sh = M div 2 ^ sh \<and> 2 * (M mod 2 ^ sh) \<le> 2 ^ sh
   \<or> round_even M sh = M div 2 ^ sh + 1 \<and> 2 ^ sh \<le> 2 * (M mod 2 ^ sh)"
  by (auto simp: round_even_def Let_def)

lemma round_even_error:
  "2 * \<bar>int (round_even M sh) * 2 ^ sh - int M\<bar> \<le> 2 ^ sh"
proof -
  have "M = M div 2 ^ sh * 2 ^ sh + M mod 2 ^ sh" by (rule div_mult_mod_eq [symmetric])
  then have "int M = int (M div 2 ^ sh * 2 ^ sh + M mod 2 ^ sh)" by (rule arg_cong)
  then have M: "int M = int (M div 2 ^ sh) * 2 ^ sh + int (M mod 2 ^ sh)" by simp
  have "M mod 2 ^ sh < 2 ^ sh" by simp
  then have "int (M mod 2 ^ sh) < int (2 ^ sh)" by (rule iffD2 [OF of_nat_less_iff])
  then have r: "int (M mod 2 ^ sh) < 2 ^ sh" by simp
  from round_even_cases [of M sh] show ?thesis
  proof
    assume a: "round_even M sh = M div 2 ^ sh \<and> 2 * (M mod 2 ^ sh) \<le> 2 ^ sh"
    then have "int (2 * (M mod 2 ^ sh)) \<le> int (2 ^ sh)" by (intro iffD2 [OF of_nat_le_iff]) simp
    then have "2 * int (M mod 2 ^ sh) \<le> 2 ^ sh" by simp
    with a M show ?thesis by simp
  next
    assume a: "round_even M sh = M div 2 ^ sh + 1 \<and> 2 ^ sh \<le> 2 * (M mod 2 ^ sh)"
    then have "int (2 ^ sh) \<le> int (2 * (M mod 2 ^ sh))" by (intro iffD2 [OF of_nat_le_iff]) simp
    then have "2 ^ sh \<le> 2 * int (M mod 2 ^ sh)" by simp
    with a M r show ?thesis by (simp add: algebra_simps)
  qed
qed

section \<open>What pack returns\<close>

text \<open>
  The two branches of \<open>pack\<close>, for a number on or above the subnormal grid: at most 53
  significant bits are kept as they are; more are rounded to 53, with a possible carry.
\<close>

lemma pack_small:
  assumes M: "0 < M" and k: "bit_length M \<le> 53" and e: "- 1074 \<le> e"
  shows "\<exists>d. int d \<le> e + 1074 \<and> M * 2 ^ d < 2 ^ 53
            \<and> (M * 2 ^ d < 2 ^ 52 \<longrightarrow> e - int d = - 1074)
            \<and> pack s M e = (if 971 < e - int d then Inf s else Fin s (M * 2 ^ d) (e - int d))"
proof -
  define d where "d = nat (min (53 - int (bit_length M)) (e + 1074))"
  have sh: "max (int (bit_length M) - 53) (- 1074 - e) = - int d"
    using k e by (simp add: d_def min_def max_def)
  have d1: "int d \<le> e + 1074" using k e by (simp add: d_def)
  have "int d \<le> 53 - int (bit_length M)" using k e by (simp add: d_def)
  then have d2: "d + bit_length M \<le> 53" by linarith
  have "M * 2 ^ d < 2 ^ bit_length M * 2 ^ d"
    using bit_length_upper [of M] by simp
  also have "\<dots> = 2 ^ (bit_length M + d)" by (simp add: power_add)
  also have "\<dots> \<le> (2::nat) ^ 53" using d2 by (intro power_increasing) auto
  finally have q: "M * 2 ^ d < 2 ^ 53" .
  have norm: "e - int d = - 1074" if lt: "M * 2 ^ d < 2 ^ 52"
  proof (rule ccontr)
    assume "e - int d \<noteq> - 1074"
    with d1 have "int d < e + 1074" by simp
    then have dk: "d = 53 - bit_length M" using k e by (simp add: d_def min_def split: if_splits)
    have "(2::nat) ^ 52 = 2 ^ (bit_length M - 1) * 2 ^ d"
      using k bit_length_pos [OF M] by (simp add: dk flip: power_add)
    also have "\<dots> \<le> M * 2 ^ d" using bit_length_lower [OF M] by simp
    finally show False using lt by simp
  qed
  have "pack s M e = (if 971 < e - int d then Inf s else Fin s (M * 2 ^ d) (e - int d))"
    unfolding pack_def sh using q by (simp add: Let_def)
  with d1 q norm show ?thesis by blast
qed

lemma pack_big:
  assumes k: "53 < bit_length M" and e: "- 1074 \<le> e"
  shows "\<exists>sh q. 0 < sh \<and> 2 ^ 52 \<le> q \<and> q \<le> 2 ^ 53
            \<and> 2 * \<bar>int q * 2 ^ sh - int M\<bar> \<le> 2 ^ sh
            \<and> 2 ^ 52 * 2 ^ sh \<le> M
            \<and> (q = 2 ^ 53 \<longrightarrow> (2 ^ 54 - 1) * 2 ^ sh \<le> 2 * M)
            \<and> pack s M e =
                (if q = 2 ^ 53
                 then (if 971 < e + int sh + 1 then Inf s else Fin s (2 ^ 52) (e + int sh + 1))
                 else (if 971 < e + int sh then Inf s else Fin s q (e + int sh)))"
proof -
  define sh where "sh = bit_length M - 53"
  define q where "q = round_even M sh"
  have sh0: "0 < sh" using k by (simp add: sh_def)
  have ksh: "bit_length M = 53 + sh" using k by (simp add: sh_def)
  have shm: "max (int (bit_length M) - 53) (- 1074 - e) = int sh"
    using k e by (simp add: sh_def max_def)
  have M0: "0 < M" using k by (cases "M = 0") (simp_all add: bit_length.simps)
  have lo: "2 ^ 52 * 2 ^ sh \<le> M"
    using bit_length_lower [OF M0] by (simp add: ksh power_add)
  have hi: "M < 2 ^ 53 * 2 ^ sh"
    using bit_length_upper [of M] by (simp add: ksh power_add)
  have dlo: "2 ^ 52 \<le> M div 2 ^ sh"
    using lo by (simp add: less_eq_div_iff_mult_less_eq)
  have dhi: "M div 2 ^ sh < 2 ^ 53"
    using hi by (simp add: less_mult_imp_div_less)
  have qlo: "2 ^ 52 \<le> q" and qhi: "q \<le> 2 ^ 53"
    using round_even_cases [of M sh] dlo dhi by (auto simp: q_def)
  have err: "2 * \<bar>int q * 2 ^ sh - int M\<bar> \<le> 2 ^ sh"
    unfolding q_def by (rule round_even_error)
  have carry: "(2 ^ 54 - 1) * 2 ^ sh \<le> 2 * M" if c: "q = 2 ^ 53"
  proof -
    from c round_even_cases [of M sh] dhi
    have up: "M div 2 ^ sh + 1 = 2 ^ 53" and r: "2 ^ sh \<le> 2 * (M mod 2 ^ sh)"
      by (auto simp: q_def)
    have "M = M div 2 ^ sh * 2 ^ sh + M mod 2 ^ sh" by (rule div_mult_mod_eq [symmetric])
    then have "2 * M = 2 * (M div 2 ^ sh) * 2 ^ sh + 2 * (M mod 2 ^ sh)" by simp
    with r have "2 * (M div 2 ^ sh) * 2 ^ sh + 2 ^ sh \<le> 2 * M" by linarith
    moreover from up have "M div 2 ^ sh = 2 ^ 53 - 1" by simp
    ultimately show ?thesis by (simp add: algebra_simps)
  qed
  have "pack s M e =
                (if q = 2 ^ 53
                 then (if 971 < e + int sh + 1 then Inf s else Fin s (2 ^ 52) (e + int sh + 1))
                 else (if 971 < e + int sh then Inf s else Fin s q (e + int sh)))"
    unfolding pack_def shm using sh0 by (simp add: Let_def q_def)
  with sh0 qlo qhi err lo carry show ?thesis by blast
qed

section \<open>The value pack returns\<close>

text \<open>
  A finite result of \<open>pack\<close> is a double whose value differs from the number packed by
  at most \<open>2^-53\<close> of it, and the result is finite whenever the number is below
  \<open>2^1024 - 2^970\<close>, the midpoint between the largest double and \<open>2^1024\<close>.
\<close>

lemma p2_pos: "0 < (2::real) powi e"
  by (simp add: zero_less_power_int)

lemma p2_add: "(2::real) powi (a + b) = 2 powi a * 2 powi b"
  by (simp add: power_int_add)

lemma p2_nat: "(2::real) powi (e + int n) = 2 powi e * 2 ^ n"
  by (simp add: power_int_add power_int_of_nat)

lemma p2_shift: "2 ^ d * (2::real) powi (e - int d) = 2 powi e"
proof -
  have "(2::real) powi e = 2 powi ((e - int d) + int d)" by simp
  also have "\<dots> = 2 powi (e - int d) * 2 ^ d" by (rule p2_nat)
  finally show ?thesis by (simp add: mult.commute)
qed

lemma p2_mono: "a \<le> b \<Longrightarrow> (2::real) powi a \<le> 2 powi b"
  by (rule power_int_increasing) simp_all

lemma pack_Inf_or_Fin: "pack s M e = Inf s \<or> (\<exists>q e'. pack s M e = Fin s q e')"
  by (simp add: pack_def Let_def)

lemma pack_props:
  assumes M: "0 < M" and e: "- 1074 \<le> e" and p: "pack s M e = Fin t q e'"
  shows "t = s \<and> is_double (Fin t q e')
         \<and> \<bar>real q * 2 powi e' - real M * 2 powi e\<bar> * 2 ^ 53 \<le> real M * 2 powi e"
proof (cases "bit_length M \<le> 53")
  case True
  from pack_small [OF M True e, of s] obtain d where
    d: "int d \<le> e + 1074" "M * 2 ^ d < 2 ^ 53" "M * 2 ^ d < 2 ^ 52 \<longrightarrow> e - int d = - 1074"
    "pack s M e = (if 971 < e - int d then Inf s else Fin s (M * 2 ^ d) (e - int d))"
    by blast
  from d(4) p have r: "\<not> 971 < e - int d" "t = s" "q = M * 2 ^ d" "e' = e - int d"
    by (auto split: if_splits)
  have "real q * 2 powi e' = real M * (2 ^ d * 2 powi (e - int d))"
    by (simp add: r)
  also have "\<dots> = real M * 2 powi e" by (simp only: p2_shift)
  finally have v: "real q * 2 powi e' = real M * 2 powi e" .
  have nn: "0 \<le> real M * 2 powi e" using p2_pos [of e] by simp
  from v have "\<bar>real q * 2 powi e' - real M * 2 powi e\<bar> * 2 ^ 53 = 0" by simp
  with nn have er: "\<bar>real q * 2 powi e' - real M * 2 powi e\<bar> * 2 ^ 53 \<le> real M * 2 powi e"
    by linarith
  have dbl: "is_double (Fin t q e')" using d(1,2,3) r by simp
  from r(2) dbl er show ?thesis by blast
next
  case False
  then have k: "53 < bit_length M" by simp
  from pack_big [OF k e, of s] obtain sh q0 where
    b: "0 < sh" "2 ^ 52 \<le> q0" "q0 \<le> 2 ^ 53" "2 * \<bar>int q0 * 2 ^ sh - int M\<bar> \<le> 2 ^ sh"
    "2 ^ 52 * 2 ^ sh \<le> M"
    "pack s M e =
                (if q0 = 2 ^ 53
                 then (if 971 < e + int sh + 1 then Inf s else Fin s (2 ^ 52) (e + int sh + 1))
                 else (if 971 < e + int sh then Inf s else Fin s q0 (e + int sh)))"
    by blast
  have ts: "t = s" using b(6) p by (auto split: if_splits)
  have dbl: "is_double (Fin t q e')"
    using b(1,2,3,6) p e by (auto split: if_splits)
  have v: "real q * 2 powi e' = real q0 * 2 ^ sh * 2 powi e"
  proof (cases "q0 = 2 ^ 53")
    case True
    with b(6) p have "q = 2 ^ 52" "e' = (e + int sh) + 1" by (auto split: if_splits)
    then have "real q * 2 powi e' = 2 ^ 52 * (2 powi (e + int sh) * 2 powi 1)"
      by (simp only: p2_add) simp
    also have "\<dots> = 2 ^ 53 * 2 powi (e + int sh)" by simp
    also have "\<dots> = real q0 * 2 ^ sh * 2 powi e" by (simp add: True p2_nat)
    finally show ?thesis .
  next
    case False
    with b(6) p have "q = q0" "e' = e + int sh" by (auto split: if_splits)
    then show ?thesis by (simp add: p2_nat)
  qed
  have "real_of_int (2 * \<bar>int q0 * 2 ^ sh - int M\<bar>) \<le> real_of_int (2 ^ sh)"
    using b(4) by (rule iffD2 [OF of_int_le_iff])
  then have er: "2 * \<bar>real q0 * 2 ^ sh - real M\<bar> \<le> 2 ^ sh" by simp
  have "real (2 ^ 52 * 2 ^ sh) \<le> real M" using b(5) by (rule iffD2 [OF of_nat_le_iff])
  then have lo: "2 ^ 52 * 2 ^ sh \<le> real M" by simp
  from er have "\<bar>real q0 * 2 ^ sh - real M\<bar> * 2 ^ 53 \<le> 2 ^ 52 * 2 ^ sh" by simp
  with lo have "\<bar>real q0 * 2 ^ sh - real M\<bar> * 2 ^ 53 \<le> real M" by linarith
  then have "\<bar>real q0 * 2 ^ sh - real M\<bar> * 2 ^ 53 * 2 powi e \<le> real M * 2 powi e"
    using p2_pos [of e] by (simp add: mult_right_mono)
  moreover have "\<bar>real q * 2 powi e' - real M * 2 powi e\<bar>
      = \<bar>real q0 * 2 ^ sh - real M\<bar> * 2 powi e"
  proof -
    have "real q * 2 powi e' - real M * 2 powi e = (real q0 * 2 ^ sh - real M) * 2 powi e"
      by (simp add: v algebra_simps)
    then show ?thesis using p2_pos [of e] by (simp add: abs_mult)
  qed
  ultimately have "\<bar>real q * 2 powi e' - real M * 2 powi e\<bar> * 2 ^ 53 \<le> real M * 2 powi e"
    by (simp add: mult.assoc mult.left_commute mult.commute)
  with ts dbl show ?thesis by blast
qed

lemma pack_no_overflow:
  assumes M: "0 < M" and e: "- 1074 \<le> e"
    and lt: "real M * 2 powi e < 2 powi 1024 - 2 powi 970"
  shows "\<exists>q e'. pack s M e = Fin s q e'"
proof (cases "bit_length M \<le> 53")
  case True
  from pack_small [OF M True e, of s] obtain d where
    d: "int d \<le> e + 1074" "M * 2 ^ d < 2 ^ 53" "M * 2 ^ d < 2 ^ 52 \<longrightarrow> e - int d = - 1074"
    "pack s M e = (if 971 < e - int d then Inf s else Fin s (M * 2 ^ d) (e - int d))"
    by blast
  have "\<not> 971 < e - int d"
  proof
    assume big: "971 < e - int d"
    with d(3) have "\<not> M * 2 ^ d < 2 ^ 52" by auto
    then have "2 ^ 52 \<le> M * 2 ^ d" by simp
    then have "real (2 ^ 52) \<le> real (M * 2 ^ d)" by (rule iffD2 [OF of_nat_le_iff])
    then have lo: "2 ^ 52 \<le> real M * 2 ^ d" by simp
    have "(2::real) powi 972 \<le> 2 powi (e - int d)" using big by (intro p2_mono) simp
    with lo have "2 ^ 52 * (2::real) powi 972 \<le> (real M * 2 ^ d) * 2 powi (e - int d)"
      by (intro mult_mono) (simp_all add: p2_pos less_imp_le)
    also have "\<dots> = real M * (2 ^ d * 2 powi (e - int d))" by simp
    also have "\<dots> = real M * 2 powi e" by (simp only: p2_shift)
    finally have "2 ^ 52 * (2::real) powi 972 \<le> real M * 2 powi e" .
    with lt show False by simp
  qed
  with d(4) show ?thesis by simp
next
  case False
  then have k: "53 < bit_length M" by simp
  from pack_big [OF k e, of s] obtain sh q0 where
    b: "0 < sh" "2 ^ 52 \<le> q0" "q0 \<le> 2 ^ 53" "2 * \<bar>int q0 * 2 ^ sh - int M\<bar> \<le> 2 ^ sh"
    "2 ^ 52 * 2 ^ sh \<le> M" "q0 = 2 ^ 53 \<longrightarrow> (2 ^ 54 - 1) * 2 ^ sh \<le> 2 * M"
    "pack s M e =
                (if q0 = 2 ^ 53
                 then (if 971 < e + int sh + 1 then Inf s else Fin s (2 ^ 52) (e + int sh + 1))
                 else (if 971 < e + int sh then Inf s else Fin s q0 (e + int sh)))"
    by blast
  have "real (2 ^ 52 * 2 ^ sh) \<le> real M" using b(5) by (rule iffD2 [OF of_nat_le_iff])
  then have lo: "2 ^ 52 * 2 ^ sh \<le> real M" by simp
  have n1: "\<not> 971 < e + int sh"
  proof
    assume big: "971 < e + int sh"
    have "(2::real) powi 972 \<le> 2 powi (e + int sh)" using big by (intro p2_mono) simp
    then have "2 ^ 52 * (2::real) powi 972 \<le> 2 ^ 52 * 2 powi (e + int sh)" by simp
    also have "\<dots> = (2 ^ 52 * 2 ^ sh) * 2 powi e" by (simp add: p2_nat)
    also have "\<dots> \<le> real M * 2 powi e"
      using lo by (intro mult_right_mono) (simp_all add: p2_pos less_imp_le)
    finally have "2 ^ 52 * (2::real) powi 972 \<le> real M * 2 powi e" .
    with lt show False by simp
  qed
  have n2: "\<not> 971 < e + int sh + 1" if c: "q0 = 2 ^ 53"
  proof
    assume big: "971 < e + int sh + 1"
    from c b(6) have "(2 ^ 54 - 1) * 2 ^ sh \<le> 2 * M" by simp
    then have "real ((2 ^ 54 - 1) * 2 ^ sh) \<le> real (2 * M)" by (rule iffD2 [OF of_nat_le_iff])
    then have c2: "(2 ^ 54 - 1) * 2 ^ sh \<le> 2 * real M" by simp
    have "(2::real) powi 971 \<le> 2 powi (e + int sh)" using big by (intro p2_mono) simp
    then have "(2 ^ 54 - 1) * (2::real) powi 971 \<le> (2 ^ 54 - 1) * 2 powi (e + int sh)" by simp
    also have "\<dots> = ((2 ^ 54 - 1) * 2 ^ sh) * 2 powi e" by (simp add: p2_nat)
    also have "\<dots> \<le> (2 * real M) * 2 powi e"
      using c2 by (intro mult_right_mono) (simp_all add: p2_pos less_imp_le)
    finally have "(2 ^ 54 - 1) * (2::real) powi 971 \<le> 2 * (real M * 2 powi e)" by simp
    with lt show False by simp
  qed
  from b(7) n1 n2 show ?thesis by auto
qed

section \<open>Values of floats\<close>

text \<open>The largest finite double, \<^verbatim>\<open>sys.float_info.max\<close>, as a real number.\<close>

lemma valof_le_max:
  assumes "is_double (Fin s m e)"
  shows "\<bar>valof (Fin s m e)\<bar> \<le> (2 ^ 53 - 1) * 2 powi 971"
proof -
  from assms have m: "m \<le> 2 ^ 53 - 1" and e: "e \<le> 971" by simp_all
  from m have "real m \<le> real (2 ^ 53 - 1)" by (rule iffD2 [OF of_nat_le_iff])
  then have m': "real m \<le> 2 ^ 53 - 1" by simp
  have "\<bar>valof (Fin s m e)\<bar> = real m * 2 powi e"
    using p2_pos [of e] by (simp add: abs_mult)
  also have "\<dots> \<le> (2 ^ 53 - 1) * 2 powi 971"
    using m' e by (intro mult_mono p2_mono) (simp_all add: p2_pos less_imp_le)
  finally show ?thesis .
qed

lemma valof_fneg: "valof (fneg x) = - valof x"
  by (cases x) simp_all

lemma is_double_fneg: "is_double (fneg x) = is_double x"
  by (cases x) simp_all

lemma is_finite_fneg: "is_finite (fneg x) = is_finite x"
  by (cases x) simp_all

lemma real_signed: "real_of_int (signed s m) = (if s then - 1 else 1) * real m"
  by (simp add: signed_def)

lemma p2_shift_up: "e \<le> e1 \<Longrightarrow> 2 ^ nat (e1 - e) * (2::real) powi e = 2 powi e1"
proof -
  assume "e \<le> e1"
  then have "e1 = e + int (nat (e1 - e))" by simp
  then have "(2::real) powi e1 = 2 powi (e + int (nat (e1 - e)))" by simp
  also have "\<dots> = 2 powi e * 2 ^ nat (e1 - e)" by (rule p2_nat)
  finally show ?thesis by (simp add: mult.commute)
qed

lemma signed_shift_value:
  "e \<le> e1 \<Longrightarrow> real_of_int (signed s (m * 2 ^ nat (e1 - e))) * 2 powi e = valof (Fin s m e1)"
proof -
  assume le: "e \<le> e1"
  have "real_of_int (signed s (m * 2 ^ nat (e1 - e))) * 2 powi e
      = (if s then - 1 else 1) * real m * (2 ^ nat (e1 - e) * 2 powi e)"
    by (simp add: real_signed)
  also have "\<dots> = (if s then - 1 else 1) * real m * 2 powi e1"
    by (simp only: p2_shift_up [OF le])
  finally show ?thesis by simp
qed

section \<open>Float addition: closure, no overflow, rounding error\<close>

text \<open>
  The sum of two finite doubles is computed exactly as an integer multiple of the smaller
  unit and packed once. So a float sum is a double again, it is finite when the exact sum
  is below the overflow threshold, and it is then within \<open>2^-53\<close> of the exact sum,
  relatively.
\<close>

lemma fadd_Fin_eq:
  "fadd (Fin s1 m1 e1) (Fin s2 m2 e2) =
     (if signed s1 (m1 * 2 ^ nat (e1 - min e1 e2)) + signed s2 (m2 * 2 ^ nat (e2 - min e1 e2)) = 0
      then Fin (s1 \<and> s2) 0 (- 1074)
      else pack (signed s1 (m1 * 2 ^ nat (e1 - min e1 e2))
                   + signed s2 (m2 * 2 ^ nat (e2 - min e1 e2)) < 0)
             (nat \<bar>signed s1 (m1 * 2 ^ nat (e1 - min e1 e2))
                   + signed s2 (m2 * 2 ^ nat (e2 - min e1 e2))\<bar>) (min e1 e2))"
  by (simp add: Let_def)

declare fadd.simps [simp del]

lemma fadd_exact_sum:
  "real_of_int (signed s1 (m1 * 2 ^ nat (e1 - min e1 e2))
               + signed s2 (m2 * 2 ^ nat (e2 - min e1 e2))) * 2 powi (min e1 e2)
     = valof (Fin s1 m1 e1) + valof (Fin s2 m2 e2)"
proof -
  have "real_of_int (signed s1 (m1 * 2 ^ nat (e1 - min e1 e2))
               + signed s2 (m2 * 2 ^ nat (e2 - min e1 e2))) * 2 powi (min e1 e2)
     = real_of_int (signed s1 (m1 * 2 ^ nat (e1 - min e1 e2))) * 2 powi (min e1 e2)
       + real_of_int (signed s2 (m2 * 2 ^ nat (e2 - min e1 e2))) * 2 powi (min e1 e2)"
    by (simp add: algebra_simps)
  also have "\<dots> = valof (Fin s1 m1 e1) + valof (Fin s2 m2 e2)"
    by (simp only: signed_shift_value [OF min.cobounded1] signed_shift_value [OF min.cobounded2])
  finally show ?thesis .
qed

lemma is_double_fadd_Fin:
  assumes dx: "is_double (Fin s1 m1 e1)" and dy: "is_double (Fin s2 m2 e2)"
  shows "is_double (fadd (Fin s1 m1 e1) (Fin s2 m2 e2))"
proof -
  define z where "z = signed s1 (m1 * 2 ^ nat (e1 - min e1 e2))
                     + signed s2 (m2 * 2 ^ nat (e2 - min e1 e2))"
  have f: "fadd (Fin s1 m1 e1) (Fin s2 m2 e2) =
     (if z = 0 then Fin (s1 \<and> s2) 0 (- 1074) else pack (z < 0) (nat \<bar>z\<bar>) (min e1 e2))"
    unfolding z_def by (rule fadd_Fin_eq)
  from dx dy have e: "- 1074 \<le> min e1 e2" by simp
  show ?thesis
  proof (cases "z = 0")
    case True
    with f have "fadd (Fin s1 m1 e1) (Fin s2 m2 e2) = Fin (s1 \<and> s2) 0 (- 1074)"
      by simp
    then show ?thesis by simp
  next
    case False
    then have M: "0 < nat \<bar>z\<bar>" by simp
    from f False have f': "fadd (Fin s1 m1 e1) (Fin s2 m2 e2) = pack (z < 0) (nat \<bar>z\<bar>) (min e1 e2)"
      by simp
    from pack_Inf_or_Fin [of "z < 0" "nat \<bar>z\<bar>" "min e1 e2"] show ?thesis
    proof
      assume "pack (z < 0) (nat \<bar>z\<bar>) (min e1 e2) = Inf (z < 0)"
      with f' show ?thesis by (simp only: is_double.simps)
    next
      assume "\<exists>q e'. pack (z < 0) (nat \<bar>z\<bar>) (min e1 e2) = Fin (z < 0) q e'"
      then obtain q e' where p: "pack (z < 0) (nat \<bar>z\<bar>) (min e1 e2) = Fin (z < 0) q e'"
        by blast
      from pack_props [OF M e p] have "is_double (Fin (z < 0) q e')" by blast
      with f' p show ?thesis by (simp only:)
    qed
  qed
qed

lemma is_double_fadd: "is_double x \<Longrightarrow> is_double y \<Longrightarrow> is_double (fadd x y)"
proof (cases x)
  case NaN
  then show ?thesis by (simp add: fadd.simps)
next
  case (Inf s)
  then show ?thesis by (cases y) (simp_all add: fadd.simps)
next
  case xf: (Fin s1 m1 e1)
  assume dx: "is_double x" and dy: "is_double y"
  show ?thesis
  proof (cases y)
    case NaN
    with xf show ?thesis by (simp add: fadd.simps)
  next
    case (Inf t)
    with xf show ?thesis by (simp add: fadd.simps)
  next
    case (Fin s2 m2 e2)
    from dx dy show ?thesis unfolding xf Fin by (rule is_double_fadd_Fin)
  qed
qed

lemma fadd_Fin_bound:
  assumes dx: "is_double (Fin s1 m1 e1)" and dy: "is_double (Fin s2 m2 e2)"
    and lt: "\<bar>valof (Fin s1 m1 e1) + valof (Fin s2 m2 e2)\<bar> < 2 powi 1024 - 2 powi 970"
  shows "is_finite (fadd (Fin s1 m1 e1) (Fin s2 m2 e2))
       \<and> \<bar>valof (fadd (Fin s1 m1 e1) (Fin s2 m2 e2))
            - (valof (Fin s1 m1 e1) + valof (Fin s2 m2 e2))\<bar> * 2 ^ 53
          \<le> \<bar>valof (Fin s1 m1 e1) + valof (Fin s2 m2 e2)\<bar>"
proof -
  define z where "z = signed s1 (m1 * 2 ^ nat (e1 - min e1 e2))
                     + signed s2 (m2 * 2 ^ nat (e2 - min e1 e2))"
  define r where "r = valof (Fin s1 m1 e1) + valof (Fin s2 m2 e2)"
  define p where "p = (2::real) powi (min e1 e2)"
  have p0: "0 < p" unfolding p_def by (rule p2_pos)
  have f: "fadd (Fin s1 m1 e1) (Fin s2 m2 e2) =
     (if z = 0 then Fin (s1 \<and> s2) 0 (- 1074) else pack (z < 0) (nat \<bar>z\<bar>) (min e1 e2))"
    unfolding z_def by (rule fadd_Fin_eq)
  have zr: "real_of_int z * p = r"
    unfolding z_def r_def p_def by (rule fadd_exact_sum)
  from dx dy have e: "- 1074 \<le> min e1 e2" by simp
  show ?thesis
  proof (cases "z = 0")
    case True
    with zr have r0: "r = 0" by simp
    from f True have "fadd (Fin s1 m1 e1) (Fin s2 m2 e2) = Fin (s1 \<and> s2) 0 (- 1074)"
      by simp
    then have "is_finite (fadd (Fin s1 m1 e1) (Fin s2 m2 e2))"
      and "valof (fadd (Fin s1 m1 e1) (Fin s2 m2 e2)) = 0"
      by simp_all
    with r0 show ?thesis unfolding r_def [symmetric] by simp
  next
    case False
    then have M: "0 < nat \<bar>z\<bar>" by simp
    have Mr: "real (nat \<bar>z\<bar>) * p = \<bar>r\<bar>"
    proof -
      have "real (nat \<bar>z\<bar>) = \<bar>real_of_int z\<bar>" by simp
      then have "real (nat \<bar>z\<bar>) * p = \<bar>real_of_int z\<bar> * \<bar>p\<bar>" using p0 by simp
      also have "\<dots> = \<bar>real_of_int z * p\<bar>" by (simp only: abs_mult)
      finally show ?thesis by (simp only: zr)
    qed
    from lt have "real (nat \<bar>z\<bar>) * 2 powi (min e1 e2) < 2 powi 1024 - 2 powi 970"
      using Mr by (simp only: p_def r_def)
    from pack_no_overflow [OF M e this, of "z < 0"]
    obtain q e' where pk: "pack (z < 0) (nat \<bar>z\<bar>) (min e1 e2) = Fin (z < 0) q e'" by blast
    from pack_props [OF M e pk]
    have er: "\<bar>real q * 2 powi e' - real (nat \<bar>z\<bar>) * p\<bar> * 2 ^ 53 \<le> real (nat \<bar>z\<bar>) * p"
      unfolding p_def by blast
    define sg where "sg = (if z < 0 then - 1 else (1::real))"
    have sg: "\<bar>sg\<bar> = 1" by (simp add: sg_def)
    have zs: "real_of_int z = sg * real (nat \<bar>z\<bar>)" by (simp add: sg_def)
    have "r = real_of_int z * p" by (simp only: zr)
    also have "\<dots> = sg * real (nat \<bar>z\<bar>) * p" by (simp only: zs)
    finally have r2: "r = sg * (real (nat \<bar>z\<bar>) * p)" by (simp only: mult.assoc)
    have v: "valof (Fin (z < 0) q e') = sg * (real q * 2 powi e')" by (simp add: sg_def)
    have "valof (Fin (z < 0) q e') - r = sg * (real q * 2 powi e' - real (nat \<bar>z\<bar>) * p)"
      by (simp only: v r2 right_diff_distrib)
    then have "\<bar>valof (Fin (z < 0) q e') - r\<bar> = \<bar>real q * 2 powi e' - real (nat \<bar>z\<bar>) * p\<bar>"
      by (simp only: abs_mult sg) simp
    with er Mr have "\<bar>valof (Fin (z < 0) q e') - r\<bar> * 2 ^ 53 \<le> \<bar>r\<bar>" by simp
    moreover from f False pk have "fadd (Fin s1 m1 e1) (Fin s2 m2 e2) = Fin (z < 0) q e'"
      by simp
    ultimately show ?thesis unfolding r_def [symmetric] by (simp only: is_finite.simps simp_thms)
  qed
qed

lemma fadd_NaN: "fadd NaN y = NaN" "fadd x NaN = NaN"
  by (cases x; simp add: fadd.simps)+

section \<open>Adding a zero\<close>

text \<open>
  Adding \<open>+0.0\<close> or \<open>-0.0\<close> to a double gives the double back; only the sign of a
  zero can change.
\<close>

lemma bit_length_unique:
  assumes lo: "2 ^ k \<le> x" and hi: "x < 2 ^ Suc k"
  shows "bit_length x = Suc k"
proof -
  from hi have "bit_length x \<le> Suc k" by (rule bit_length_le)
  moreover have "\<not> bit_length x \<le> k"
  proof
    assume "bit_length x \<le> k"
    then have "(2::nat) ^ bit_length x \<le> 2 ^ k" by (intro power_increasing) auto
    with bit_length_upper [of x] lo show False by linarith
  qed
  ultimately show ?thesis by simp
qed

lemma round_even_exact: "round_even (m * 2 ^ n) n = m"
  by (simp add: round_even_def)

lemma pack_double:
  assumes d: "is_double (Fin s m e)" and m: "0 < m"
  shows "pack s (m * 2 ^ nat (e + 1074)) (- 1074) = Fin s m e"
proof (cases "m < 2 ^ 52")
  case True
  with d have e: "e = - 1074" by simp
  from True have bl: "bit_length m \<le> 52" by (rule bit_length_le)
  from True have "m \<noteq> 2 ^ 53" by simp
  with bl show ?thesis unfolding e pack_def by (simp add: Let_def max_def)
next
  case False
  define n where "n = nat (e + 1074)"
  from d have en: "e = - 1074 + int n" by (simp add: n_def)
  from d have hi: "m < 2 ^ 53" by simp
  from False have lo: "2 ^ 52 \<le> m" by simp
  have "2 ^ (52 + n) \<le> m * 2 ^ n" using lo by (simp add: power_add)
  moreover have "m * 2 ^ n < 2 ^ Suc (52 + n)" using hi by (simp add: power_add)
  ultimately have bl: "bit_length (m * 2 ^ n) = Suc (52 + n)" by (rule bit_length_unique)
  have sh: "max (int (bit_length (m * 2 ^ n)) - 53) (- 1074 - - 1074) = int n"
    by (simp add: bl)
  from hi have ne: "m \<noteq> 2 ^ 53" by simp
  from d have le: "\<not> 971 < - 1074 + int n" by (simp add: n_def)
  have "pack s (m * 2 ^ n) (- 1074) = Fin s m (- 1074 + int n)"
  proof (cases "n = 0")
    case True
    with ne show ?thesis unfolding pack_def sh by simp
  next
    case False
    with ne le show ?thesis unfolding pack_def sh by (simp add: round_even_exact)
  qed
  then show ?thesis by (simp only: en [symmetric] n_def [symmetric])
qed

lemma fadd_zero:
  assumes d: "is_double (Fin s m e)"
  shows "fadd (Fin s m e) (Fin t 0 (- 1074)) =
           (if m = 0 then Fin (s \<and> t) 0 (- 1074) else Fin s m e)"
proof -
  from d have mn: "min e (- 1074) = - 1074" by simp
  have z: "signed s (m * 2 ^ nat (e - - 1074)) + signed t (0 * 2 ^ nat (- 1074 - - 1074))
        = signed s (m * 2 ^ nat (e + 1074))"
    by (simp add: signed_def)
  have f: "fadd (Fin s m e) (Fin t 0 (- 1074)) =
     (if signed s (m * 2 ^ nat (e + 1074)) = 0 then Fin (s \<and> t) 0 (- 1074)
      else pack (signed s (m * 2 ^ nat (e + 1074)) < 0)
             (nat \<bar>signed s (m * 2 ^ nat (e + 1074))\<bar>) (- 1074))"
    by (simp only: fadd_Fin_eq mn z)
  show ?thesis
  proof (cases "m = 0")
    case True
    then show ?thesis unfolding f by (simp add: signed_def)
  next
    case False
    then have m: "0 < m" by simp
    define n where "n = nat (e + 1074)"
    have zn: "nat \<bar>signed s (m * 2 ^ n)\<bar> = m * 2 ^ n"
      by (simp add: signed_def nat_mult_distrib nat_power_eq abs_mult)
    have zl: "(signed s (m * 2 ^ n) < 0) = s"
      using m by (simp add: signed_def mult_less_0_iff zero_less_mult_iff)
    have z0: "signed s (m * 2 ^ n) \<noteq> 0"
      using m by (simp add: signed_def)
    from pack_double [OF d m] have pk: "pack s (m * 2 ^ n) (- 1074) = Fin s m e"
      by (simp only: n_def)
    have "fadd (Fin s m e) (Fin t 0 (- 1074)) = Fin s m e"
      unfolding f n_def [symmetric] by (simp only: zn zl z0 if_False pk)
    with False show ?thesis by simp
  qed
qed

lemma zero_offset_roundtrip:
  assumes d: "is_double x" and n: "\<not> is_nan x"
  shows "float_eq (fsub (fadd x (Fin False 0 (- 1074))) (Fin False 0 (- 1074))) x"
proof (cases x)
  case NaN
  with n show ?thesis by simp
next
  case (Inf s)
  then show ?thesis by (simp add: fsub_def fadd.simps)
next
  case (Fin s m e)
  with d have df: "is_double (Fin s m e)" by simp
  show ?thesis
  proof (cases "m = 0")
    case True
    have z: "is_double (Fin False 0 (- 1074))" by simp
    from fadd_zero [OF df, of False] True
    have "fadd (Fin s m e) (Fin False 0 (- 1074)) = Fin False 0 (- 1074)" by simp
    moreover from fadd_zero [OF z, of True]
    have "fadd (Fin False 0 (- 1074)) (Fin True 0 (- 1074)) = Fin False 0 (- 1074)" by simp
    ultimately have "fsub (fadd x (Fin False 0 (- 1074))) (Fin False 0 (- 1074))
        = Fin False 0 (- 1074)"
      by (simp add: fsub_def Fin)
    then show ?thesis using True by (simp add: Fin signed_def)
  next
    case False
    from fadd_zero [OF df, of False] False
    have "fadd (Fin s m e) (Fin False 0 (- 1074)) = Fin s m e" by simp
    moreover from fadd_zero [OF df, of True] False
    have "fadd (Fin s m e) (Fin True 0 (- 1074)) = Fin s m e" by simp
    ultimately have "fsub (fadd x (Fin False 0 (- 1074))) (Fin False 0 (- 1074)) = Fin s m e"
      by (simp add: fsub_def Fin)
    then show ?thesis by (simp add: Fin)
  qed
qed

section \<open>Accumulated rounding error, in real numbers\<close>

text \<open>
  Two and four consecutive shifts by offsets between 0 and 1, each rounded with relative
  error at most \<open>2^-53\<close>: how far the end can be from the start.
\<close>

lemma same_electrode_real:
  fixes r1 r2 v a :: real
  assumes h1: "\<bar>r1 - (v + a)\<bar> * 2 ^ 53 \<le> \<bar>v + a\<bar>"
    and h2: "\<bar>r2 - (r1 - a)\<bar> * 2 ^ 53 \<le> \<bar>r1 - a\<bar>"
    and a: "0 \<le> a" "a \<le> 1"
  shows "\<bar>r2 - v\<bar> * 2 ^ 51 \<le> \<bar>v\<bar> + 1"
proof -
  define x1 where "x1 = \<bar>r1 - (v + a)\<bar>"
  define x2 where "x2 = \<bar>r2 - (r1 - a)\<bar>"
  define w where "w = \<bar>v\<bar>"
  define s where "s = \<bar>r2 - v\<bar>"
  have n: "0 \<le> x1" "0 \<le> x2" "0 \<le> w" by (simp_all add: x1_def x2_def w_def)
  have b1: "\<bar>v + a\<bar> \<le> w + 1" unfolding w_def using a by linarith
  have b2: "\<bar>r1 - a\<bar> \<le> w + x1" unfolding w_def x1_def by linarith
  have b3: "s \<le> x1 + x2" unfolding s_def x1_def x2_def by linarith
  from h1 b1 have k1: "x1 * 2 ^ 53 \<le> w + 1" unfolding x1_def by linarith
  from h2 b2 have k2: "x2 * 2 ^ 53 \<le> w + x1" unfolding x2_def by linarith
  from k1 k2 b3 n have "s * 2 ^ 51 \<le> w + 1" by simp
  then show ?thesis by (simp only: s_def w_def)
qed

lemma two_shifts_real:
  fixes r1 r2 v a b :: real
  assumes h1: "\<bar>r1 - (v + a)\<bar> * 2 ^ 53 \<le> \<bar>v + a\<bar>"
    and h2: "\<bar>r2 - (r1 - b)\<bar> * 2 ^ 53 \<le> \<bar>r1 - b\<bar>"
    and a: "0 \<le> a" "a \<le> 1" and b: "0 \<le> b" "b \<le> 1"
  shows "\<bar>r2 - (v + a - b)\<bar> * 2 ^ 51 \<le> \<bar>v\<bar> + 1"
proof -
  define x1 where "x1 = \<bar>r1 - (v + a)\<bar>"
  define x2 where "x2 = \<bar>r2 - (r1 - b)\<bar>"
  define w where "w = \<bar>v\<bar>"
  define s where "s = \<bar>r2 - (v + a - b)\<bar>"
  have n: "0 \<le> x1" "0 \<le> x2" "0 \<le> w" by (simp_all add: x1_def x2_def w_def)
  have b1: "\<bar>v + a\<bar> \<le> w + 1" unfolding w_def using a by linarith
  have b2: "\<bar>r1 - b\<bar> \<le> w + 1 + x1" unfolding w_def x1_def using a b by linarith
  have b3: "s \<le> x1 + x2" unfolding s_def x1_def x2_def by linarith
  from h1 b1 have k1: "x1 * 2 ^ 53 \<le> w + 1" unfolding x1_def by linarith
  from h2 b2 have k2: "x2 * 2 ^ 53 \<le> w + 1 + x1" unfolding x2_def by linarith
  from k1 k2 b3 n have "s * 2 ^ 51 \<le> w + 1" by simp
  then show ?thesis by (simp only: s_def w_def)
qed

lemma round_trip_real:
  fixes v a b r1 r2 r3 r4 :: real
  assumes h1: "\<bar>r1 - (v + a)\<bar> * 2 ^ 53 \<le> \<bar>v + a\<bar>"
    and h2: "\<bar>r2 - (r1 - b)\<bar> * 2 ^ 53 \<le> \<bar>r1 - b\<bar>"
    and h3: "\<bar>r3 - (r2 + b)\<bar> * 2 ^ 53 \<le> \<bar>r2 + b\<bar>"
    and h4: "\<bar>r4 - (r3 - a)\<bar> * 2 ^ 53 \<le> \<bar>r3 - a\<bar>"
    and a: "0 \<le> a" "a \<le> 1" and b: "0 \<le> b" "b \<le> 1"
  shows "\<bar>r4 - v\<bar> * 2 ^ 50 \<le> \<bar>v\<bar> + 1"
proof -
  define x1 where "x1 = \<bar>r1 - (v + a)\<bar>"
  define x2 where "x2 = \<bar>r2 - (r1 - b)\<bar>"
  define x3 where "x3 = \<bar>r3 - (r2 + b)\<bar>"
  define x4 where "x4 = \<bar>r4 - (r3 - a)\<bar>"
  define w where "w = \<bar>v\<bar>"
  define s where "s = \<bar>r4 - v\<bar>"
  have n: "0 \<le> x1" "0 \<le> x2" "0 \<le> x3" "0 \<le> x4" "0 \<le> w"
    by (simp_all add: x1_def x2_def x3_def x4_def w_def)
  have b1: "\<bar>v + a\<bar> \<le> w + 1" unfolding w_def using a by linarith
  have b2: "\<bar>r1 - b\<bar> \<le> w + 1 + x1" unfolding w_def x1_def using a b by linarith
  have b3: "\<bar>r2 + b\<bar> \<le> w + 1 + x1 + x2" unfolding w_def x1_def x2_def using a b by linarith
  have b4: "\<bar>r3 - a\<bar> \<le> w + x1 + x2 + x3" unfolding w_def x1_def x2_def x3_def by linarith
  have b5: "s \<le> x1 + x2 + x3 + x4" unfolding s_def x1_def x2_def x3_def x4_def by linarith
  from h1 b1 have k1: "x1 * 2 ^ 53 \<le> w + 1" unfolding x1_def by linarith
  from h2 b2 have k2: "x2 * 2 ^ 53 \<le> w + 1 + x1" unfolding x2_def by linarith
  from h3 b3 have k3: "x3 * 2 ^ 53 \<le> w + 1 + x1 + x2" unfolding x3_def by linarith
  from h4 b4 have k4: "x4 * 2 ^ 53 \<le> w + x1 + x2 + x3" unfolding x4_def by linarith
  from k1 k2 k3 k4 b5 n have "s * 2 ^ 50 \<le> w + 1" by simp
  then show ?thesis by (simp only: s_def w_def)
qed

section \<open>One shift by a small offset\<close>

lemma fadd_offset:
  assumes x: "is_double x" "is_finite x" and c: "is_double c" "is_finite c" "\<bar>valof c\<bar> \<le> 1"
  shows "is_double (fadd x c) \<and> is_finite (fadd x c)
         \<and> \<bar>valof (fadd x c) - (valof x + valof c)\<bar> * 2 ^ 53 \<le> \<bar>valof x + valof c\<bar>"
proof -
  from x(2) obtain s1 m1 e1 where xf: "x = Fin s1 m1 e1" by (cases x) simp_all
  from c(2) obtain s2 m2 e2 where cf: "c = Fin s2 m2 e2" by (cases c) simp_all
  from x(1) have "\<bar>valof x\<bar> \<le> (2 ^ 53 - 1) * 2 powi 971" unfolding xf by (rule valof_le_max)
  with c(3) have "\<bar>valof x + valof c\<bar> \<le> (2 ^ 53 - 1) * 2 powi 971 + 1" by linarith
  also have "\<dots> < 2 powi 1024 - 2 powi 970" by simp
  finally have lt: "\<bar>valof x + valof c\<bar> < 2 powi 1024 - 2 powi 970" .
  from x(1) c(1) lt have "is_finite (fadd x c)
       \<and> \<bar>valof (fadd x c) - (valof x + valof c)\<bar> * 2 ^ 53 \<le> \<bar>valof x + valof c\<bar>"
    unfolding xf cf by (rule fadd_Fin_bound)
  moreover from x(1) c(1) have "is_double (fadd x c)" by (rule is_double_fadd)
  ultimately show ?thesis by blast
qed

lemma fsub_offset:
  assumes x: "is_double x" "is_finite x" and c: "is_double c" "is_finite c" "\<bar>valof c\<bar> \<le> 1"
  shows "is_double (fsub x c) \<and> is_finite (fsub x c)
         \<and> \<bar>valof (fsub x c) - (valof x - valof c)\<bar> * 2 ^ 53 \<le> \<bar>valof x - valof c\<bar>"
proof -
  have "is_double (fneg c)" "is_finite (fneg c)" "\<bar>valof (fneg c)\<bar> \<le> 1"
    using c by (simp_all add: is_double_fneg is_finite_fneg valof_fneg)
  from fadd_offset [OF x this] show ?thesis by (simp add: fsub_def valof_fneg)
qed

section \<open>Evaluation and lookup lemmas\<close>

text \<open>
  The literals of the source and the conversions of the worked example, evaluated; the
  facts about lookups in the table that the theorems below share.
\<close>

lemma bit_length_numeral [simp]:
  "bit_length 0 = 0" "bit_length 1 = 1" "bit_length (Suc 0) = 1"
  "bit_length (numeral (Num.Bit0 n)) = bit_length (numeral n) + 1"
  "bit_length (numeral (Num.Bit1 n)) = bit_length (numeral n) + 1"
  "bit_length (numeral Num.One) = 1"
  by (subst bit_length.simps, simp add: numeral_Bit0_div_2 numeral_Bit1_div_2)+

lemmas float_eval = float_of_decimal_def pack_def round_even_def signed_def fsub_def fadd.simps

lemma REFERENCE_POTENTIALS_eval:
  "REFERENCE_POTENTIALS =
     [(''NHE (Normal Hydrogen)'', Fin False 0 (- 1074)),
      (''SHE (Standard Hydrogen)'', Fin False 0 (- 1074)),
      (''Calomel (Sat'd KCl)'', Fin False 8682940081570316 (- 55)),
      (''Calomel (3.5M KCl)'', Fin False 4503599627370496 (- 54)),
      (''Calomel (1M KCl)'', Fin False 5044031582654956 (- 54)),
      (''Calomel (0.1M KCl)'', Fin False 6016809102166983 (- 54)),
      (''Ag/AgCl (Sat'd KCl)'', Fin False 7097673012735902 (- 55)),
      (''Ag/AgCl (3.5M KCl)'', Fin False 7385903388887613 (- 55)),
      (''Ag/AgCl (3M KCl)'', Fin False 7566047373982433 (- 55)),
      (''Ag/AgCl (0.1M KCl)'', Fin False 5188146770730811 (- 54)),
      (''Mercury/Mercurous Sulfate (0.5M H'' @ [CHR 0xE2, CHR 0x82, CHR 0x82] @ ''SO''
         @ [CHR 0xE2, CHR 0x82, CHR 0x84] @ '')'', Fin False 6142909891733357 (- 53)),
      (''Mercury/Mercurous Sulfate (1M H'' @ [CHR 0xE2, CHR 0x82, CHR 0x82] @ ''SO''
         @ [CHR 0xE2, CHR 0x82, CHR 0x84] @ '')'', Fin False 6070852297695429 (- 53)),
      (''Mercury/Mercurous Sulfate (Sat'd K'' @ [CHR 0xE2, CHR 0x82, CHR 0x82] @ ''SO''
         @ [CHR 0xE2, CHR 0x82, CHR 0x84] @ '')'', Fin False 5764607523034235 (- 53)),
      (''Hg/HgO (1M NaOH)'', Fin False 7061644215716938 (- 56)),
      (''Hg/HgO (20% KOH)'', Fin False 6845471433603154 (- 56)),
      (''Silver/Silver Sulfate (Sat'd K'' @ [CHR 0xE2, CHR 0x82, CHR 0x82] @ ''SO''
         @ [CHR 0xE2, CHR 0x82, CHR 0x84] @ '')'', Fin False 5890708312600609 (- 53))]"
  unfolding REFERENCE_POTENTIALS_def by (simp add: float_eval)

lemma distinct_keys: "distinct (keys REFERENCE_POTENTIALS)"
  unfolding keys_def REFERENCE_POTENTIALS_def by simp

lemma getitem_cases:
  "(k \<in> set (keys d) \<and> (\<exists>v. map_of d k = Some v \<and> getitem d k = Inr v)) \<or>
   (k \<notin> set (keys d) \<and> getitem d k = Inl (KeyError k))"
proof (cases "map_of d k")
  case None
  then have "k \<notin> fst ` set d" by (simp add: map_of_eq_None_iff)
  with None show ?thesis by (simp add: getitem_def keys_def)
next
  case (Some v)
  then have "k \<in> fst ` set d" by (metis map_of_eq_None_iff option.distinct(1))
  with Some show ?thesis by (simp add: getitem_def keys_def)
qed

lemma getitem_default_from:
  "getitem REFERENCE_POTENTIALS ''Ag/AgCl (Sat'd KCl)'' = Inr (Fin False 7097673012735902 (- 55))"
  by (simp add: getitem_def REFERENCE_POTENTIALS_eval)

lemma getitem_SHE:
  "getitem REFERENCE_POTENTIALS ''SHE (Standard Hydrogen)'' = Inr (Fin False 0 (- 1074))"
  by (simp add: getitem_def REFERENCE_POTENTIALS_eval)

lemma getitem_NHE:
  "getitem REFERENCE_POTENTIALS ''NHE (Normal Hydrogen)'' = Inr (Fin False 0 (- 1074))"
  by (simp add: getitem_def REFERENCE_POTENTIALS_eval)

lemma default_keys:
  "''Ag/AgCl (Sat'd KCl)'' \<in> set (keys REFERENCE_POTENTIALS)"
  "''SHE (Standard Hydrogen)'' \<in> set (keys REFERENCE_POTENTIALS)"
  "''NHE (Normal Hydrogen)'' \<in> set (keys REFERENCE_POTENTIALS)"
  "''Unobtainium'' \<notin> set (keys REFERENCE_POTENTIALS)"
  by (simp_all add: keys_def REFERENCE_POTENTIALS_def)

lemma float_035: "float_of_decimal 35 2 = Fin False 6305039478318694 (- 54)"
  by (simp add: float_eval)

lemma float_0547: "float_of_decimal 547 3 = Fin False 4926937992343323 (- 53)"
  by (simp add: float_eval)

lemma table_offsets:
  "(k, a) \<in> set REFERENCE_POTENTIALS \<Longrightarrow>
     is_double a \<and> is_finite a \<and> 0 \<le> valof a \<and> valof a \<le> 1"
  unfolding REFERENCE_POTENTIALS_eval by (auto simp: power_int_minus_divide)

lemma getitem_in_table: "getitem d k = Inr a \<Longrightarrow> (k, a) \<in> set d"
  by (auto simp: getitem_def split: option.splits dest: map_of_SomeD)

lemma key_offset:
  assumes "k \<in> set (keys REFERENCE_POTENTIALS)"
  shows "\<exists>a. getitem REFERENCE_POTENTIALS k = Inr a \<and> is_double a \<and> is_finite a
             \<and> 0 \<le> valof a \<and> valof a \<le> 1"
proof -
  from assms getitem_cases [of k REFERENCE_POTENTIALS]
  obtain a where a: "getitem REFERENCE_POTENTIALS k = Inr a" by blast
  from table_offsets [OF getitem_in_table [OF a]] a show ?thesis by blast
qed

lemma convert_potential_eq:
  "getitem REFERENCE_POTENTIALS f = Inr a \<Longrightarrow> getitem REFERENCE_POTENTIALS t = Inr b \<Longrightarrow>
     convert_potential p f t = Inr (fsub (fadd p a) b)"
  by (simp add: convert_potential_def)

lemma digits_small: "n < 10 \<Longrightarrow> digits n = [digit_char n]"
  by (subst digits.simps) simp

lemma format_035: "format_3f (Fin False 6305039478318694 (- 54)) = ''0.350''"
  by (simp add: thousandths_def digits_small digit_char_def)

lemma format_0547: "format_3f (Fin False 4926937992343322 (- 53)) = ''0.547''"
  by (simp add: thousandths_def digits_small digit_char_def)

lemma format_035_up: "format_3f (Fin False 6305039478318695 (- 54)) = ''0.350''"
  by (simp add: thousandths_def digits_small digit_char_def)

lemma default_conversion:
  "convert_potential (Fin False 6305039478318694 (- 54)) ''Ag/AgCl (Sat'd KCl)''
     ''SHE (Standard Hydrogen)'' = Inr (Fin False 4926937992343322 (- 53))"
  by (simp add: convert_potential_def getitem_default_from getitem_SHE float_eval)

lemma reverse_conversion:
  "convert_potential (Fin False 4926937992343323 (- 53)) ''SHE (Standard Hydrogen)''
     ''Ag/AgCl (Sat'd KCl)'' = Inr (Fin False 6305039478318695 (- 54))"
  by (simp add: convert_potential_def getitem_default_from getitem_SHE float_eval fadd.simps)

lemma same_electrode_default:
  "convert_potential (Fin False 6305039478318694 (- 54)) ''Ag/AgCl (Sat'd KCl)''
     ''Ag/AgCl (Sat'd KCl)'' = Inr (Fin False 6305039478318693 (- 54))"
  by (simp add: convert_potential_eq [OF getitem_default_from getitem_default_from] float_eval
      fadd.simps)

lemma history_simps [simp]:
  "history (ss\<lparr>conversion_history := Some h\<rparr>) = h"
  "history (ss\<lparr>ss_from_ref := a\<rparr>) = history ss"
  "history (ss\<lparr>ss_to_ref := b\<rparr>) = history ss"
  by (simp_all add: history_def)

lemma history_section_not_raised: "snd (history_section w ss) \<noteq> Raised err"
  by (simp add: history_section_def)

lemma convert_handler_success:
  "convert_potential p f t = Inr v \<Longrightarrow>
     history (fst (convert_handler p f t now ss)) =
       history ss @ [\<lparr>Input_Potential = format_3f p @ '' V'', From_Reference = f,
                      To_Reference = t, Result = format_3f v @ '' V'', Timestamp = now\<rparr>]"
  by (cases "conversion_history ss") (simp_all add: convert_handler_def Let_def history_def)

section \<open>The converter's arithmetic\<close>

text \<open>
  C1. For every potential and every two names that are keys of the table, the converter
  returns the float sum \<open>s\<close> of the potential and the source offset, minus the target
  offset, the addition being done, and rounded, first. For a finite potential both steps
  are finite and each is the exact sum, or difference, of its operands up to a relative
  error of \<open>2^-53\<close>, so that the result is within \<open>(|p| + 1) / 2^51\<close> of the real
  number \<open>p + offset(from_ref) - offset(to_ref)\<close>. NaN gives NaN and an infinity
  gives the same infinity.
\<close>

theorem convert_potential_formula:
  assumes "from_ref \<in> set (keys REFERENCE_POTENTIALS)"
    and "to_ref \<in> set (keys REFERENCE_POTENTIALS)"
  shows "\<exists>a b s r. getitem REFERENCE_POTENTIALS from_ref = Inr a
             \<and> getitem REFERENCE_POTENTIALS to_ref = Inr b
             \<and> s = fadd p a \<and> r = fsub s b
             \<and> convert_potential p from_ref to_ref = Inr r
             \<and> (is_double p \<and> is_finite p \<longrightarrow>
                   is_finite s \<and> is_finite r
                   \<and> \<bar>valof s - (valof p + valof a)\<bar> * 2 ^ 53 \<le> \<bar>valof p + valof a\<bar>
                   \<and> \<bar>valof r - (valof s - valof b)\<bar> * 2 ^ 53 \<le> \<bar>valof s - valof b\<bar>
                   \<and> \<bar>valof r - (valof p + valof a - valof b)\<bar> \<le> (\<bar>valof p\<bar> + 1) / 2 ^ 51)
             \<and> (is_nan p \<longrightarrow> r = NaN)
             \<and> (\<forall>sg. p = Inf sg \<longrightarrow> r = Inf sg)"
proof -
  from key_offset [OF assms(1)] obtain a where
    a: "getitem REFERENCE_POTENTIALS from_ref = Inr a" "is_double a" "is_finite a"
       "0 \<le> valof a" "valof a \<le> 1"
    by blast
  from key_offset [OF assms(2)] obtain b where
    b: "getitem REFERENCE_POTENTIALS to_ref = Inr b" "is_double b" "is_finite b"
       "0 \<le> valof b" "valof b \<le> 1"
    by blast
  from a b have a1: "\<bar>valof a\<bar> \<le> 1" and b1: "\<bar>valof b\<bar> \<le> 1" by simp_all
  from a(3) obtain s1 m1 e1 where af: "a = Fin s1 m1 e1" by (cases a) simp_all
  from b(3) obtain s2 m2 e2 where bf: "b = Fin s2 m2 e2" by (cases b) simp_all
  define s where "s = fadd p a"
  define r where "r = fsub s b"
  have c: "convert_potential p from_ref to_ref = Inr r"
    unfolding r_def s_def by (rule convert_potential_eq [OF a(1) b(1)])
  have num: "is_finite s \<and> is_finite r
             \<and> \<bar>valof s - (valof p + valof a)\<bar> * 2 ^ 53 \<le> \<bar>valof p + valof a\<bar>
             \<and> \<bar>valof r - (valof s - valof b)\<bar> * 2 ^ 53 \<le> \<bar>valof s - valof b\<bar>
             \<and> \<bar>valof r - (valof p + valof a - valof b)\<bar> \<le> (\<bar>valof p\<bar> + 1) / 2 ^ 51"
    if p: "is_double p \<and> is_finite p"
  proof -
    from p have pd: "is_double p" and pf: "is_finite p" by simp_all
    from fadd_offset [OF pd pf a(2,3) a1]
    have s1: "is_double s" "is_finite s"
      "\<bar>valof s - (valof p + valof a)\<bar> * 2 ^ 53 \<le> \<bar>valof p + valof a\<bar>"
      unfolding s_def by blast+
    from fsub_offset [OF s1(1,2) b(2,3) b1]
    have s2: "is_finite r" "\<bar>valof r - (valof s - valof b)\<bar> * 2 ^ 53 \<le> \<bar>valof s - valof b\<bar>"
      unfolding r_def by blast+
    from s1(3) s2(2) a(4,5) b(4,5)
    have "\<bar>valof r - (valof p + valof a - valof b)\<bar> * 2 ^ 51 \<le> \<bar>valof p\<bar> + 1"
      by (rule two_shifts_real)
    then have "\<bar>valof r - (valof p + valof a - valof b)\<bar> \<le> (\<bar>valof p\<bar> + 1) / 2 ^ 51"
      by (simp add: le_divide_eq)
    with s1(2,3) s2 show ?thesis by blast
  qed
  have nan: "r = NaN" if "is_nan p"
  proof -
    from that have "p = NaN" by (cases p) simp_all
    then show ?thesis by (simp add: r_def s_def fsub_def fadd_NaN)
  qed
  have inf: "r = Inf sg" if "p = Inf sg" for sg
    using that by (simp add: r_def s_def fsub_def af bf fadd.simps)
  from a(1) b(1) c num nan inf s_def r_def show ?thesis by blast
qed

theorem convert_potential_formula_witness:
  "''Ag/AgCl (Sat'd KCl)'' \<in> set (keys REFERENCE_POTENTIALS)
   \<and> ''SHE (Standard Hydrogen)'' \<in> set (keys REFERENCE_POTENTIALS)
   \<and> is_double (float_of_decimal 35 2) \<and> is_finite (float_of_decimal 35 2)
   \<and> getitem REFERENCE_POTENTIALS ''Ag/AgCl (Sat'd KCl)''
       = Inr (Fin False 7097673012735902 (- 55))
   \<and> getitem REFERENCE_POTENTIALS ''SHE (Standard Hydrogen)'' = Inr (Fin False 0 (- 1074))
   \<and> convert_potential (float_of_decimal 35 2) ''Ag/AgCl (Sat'd KCl)'' ''SHE (Standard Hydrogen)''
       = Inr (Fin False 4926937992343322 (- 53))
   \<and> \<bar>valof (Fin False 4926937992343322 (- 53))
        - (valof (float_of_decimal 35 2) + valof (Fin False 7097673012735902 (- 55))
           - valof (Fin False 0 (- 1074)))\<bar>
       \<le> (\<bar>valof (float_of_decimal 35 2)\<bar> + 1) / 2 ^ 51
   \<and> \<bar>valof (Fin False 4926937992343322 (- 53)) - 547 / 1000\<bar> \<le> 1 / 2 ^ 52"
proof -
  have d: "is_double (float_of_decimal 35 2)" and f: "is_finite (float_of_decimal 35 2)"
    by (simp_all add: float_035)
  from convert_potential_formula [OF default_keys(1) default_keys(2), of "float_of_decimal 35 2"]
  obtain a b s r where
    t: "getitem REFERENCE_POTENTIALS ''Ag/AgCl (Sat'd KCl)'' = Inr a"
       "getitem REFERENCE_POTENTIALS ''SHE (Standard Hydrogen)'' = Inr b"
       "convert_potential (float_of_decimal 35 2) ''Ag/AgCl (Sat'd KCl)''
          ''SHE (Standard Hydrogen)'' = Inr r"
       "is_double (float_of_decimal 35 2) \<and> is_finite (float_of_decimal 35 2) \<longrightarrow>
          \<bar>valof r - (valof (float_of_decimal 35 2) + valof a - valof b)\<bar>
            \<le> (\<bar>valof (float_of_decimal 35 2)\<bar> + 1) / 2 ^ 51"
    by blast
  from t(1) have a: "a = Fin False 7097673012735902 (- 55)" by (simp add: getitem_default_from)
  from t(2) have b: "b = Fin False 0 (- 1074)" by (simp add: getitem_SHE)
  from t(3) have r: "r = Fin False 4926937992343322 (- 53)"
    by (simp add: float_035 default_conversion)
  from t(4) d f have bd: "\<bar>valof (Fin False 4926937992343322 (- 53))
        - (valof (float_of_decimal 35 2) + valof (Fin False 7097673012735902 (- 55))
           - valof (Fin False 0 (- 1074)))\<bar>
       \<le> (\<bar>valof (float_of_decimal 35 2)\<bar> + 1) / 2 ^ 51"
    unfolding a b r by blast
  have n: "\<bar>valof (Fin False 4926937992343322 (- 53)) - 547 / 1000\<bar> \<le> 1 / 2 ^ 52"
    by (simp add: power_int_minus_divide)
  from t(3) r have c: "convert_potential (float_of_decimal 35 2) ''Ag/AgCl (Sat'd KCl)''
      ''SHE (Standard Hydrogen)'' = Inr (Fin False 4926937992343322 (- 53))" by simp
  from default_keys(1) default_keys(2) d f getitem_default_from getitem_SHE c bd n
  show ?thesis by (simp only: simp_thms)
qed

section \<open>The table's contents\<close>

text \<open>
  C2. The table has exactly 16 entries with pairwise different names. In the order of the
  source, looking each name up gives the double that the decimal literal of the source
  denotes, a finite double within \<open>2^-54\<close> of the offset the specification lists; the
  offsets of NHE and SHE are the double \<open>+0.0\<close>, whose value is exactly 0.
\<close>

theorem reference_table_contents:
  "length REFERENCE_POTENTIALS = 16
   \<and> distinct (keys REFERENCE_POTENTIALS)
   \<and> list_all2
        (\<lambda>k (name, n). k = name
           \<and> getitem REFERENCE_POTENTIALS k = Inr (float_of_decimal n 3)
           \<and> is_double (float_of_decimal n 3) \<and> is_finite (float_of_decimal n 3)
           \<and> \<bar>valof (float_of_decimal n 3) - real n / 1000\<bar> \<le> 1 / 2 ^ 54)
        (keys REFERENCE_POTENTIALS)
        [(''NHE (Normal Hydrogen)'', 0),
         (''SHE (Standard Hydrogen)'', 0),
         (''Calomel (Sat'd KCl)'', 241),
         (''Calomel (3.5M KCl)'', 250),
         (''Calomel (1M KCl)'', 280),
         (''Calomel (0.1M KCl)'', 334),
         (''Ag/AgCl (Sat'd KCl)'', 197),
         (''Ag/AgCl (3.5M KCl)'', 205),
         (''Ag/AgCl (3M KCl)'', 210),
         (''Ag/AgCl (0.1M KCl)'', 288),
         (''Mercury/Mercurous Sulfate (0.5M H'' @ [CHR 0xE2, CHR 0x82, CHR 0x82] @ ''SO''
            @ [CHR 0xE2, CHR 0x82, CHR 0x84] @ '')'', 682),
         (''Mercury/Mercurous Sulfate (1M H'' @ [CHR 0xE2, CHR 0x82, CHR 0x82] @ ''SO''
            @ [CHR 0xE2, CHR 0x82, CHR 0x84] @ '')'', 674),
         (''Mercury/Mercurous Sulfate (Sat'd K'' @ [CHR 0xE2, CHR 0x82, CHR 0x82] @ ''SO''
            @ [CHR 0xE2, CHR 0x82, CHR 0x84] @ '')'', 640),
         (''Hg/HgO (1M NaOH)'', 98),
         (''Hg/HgO (20% KOH)'', 95),
         (''Silver/Silver Sulfate (Sat'd K'' @ [CHR 0xE2, CHR 0x82, CHR 0x82] @ ''SO''
            @ [CHR 0xE2, CHR 0x82, CHR 0x84] @ '')'', 654)]
   \<and> getitem REFERENCE_POTENTIALS ''SHE (Standard Hydrogen)'' = Inr (Fin False 0 (- 1074))
   \<and> valof (Fin False 0 (- 1074)) = 0"
proof (intro conjI)
  show "length REFERENCE_POTENTIALS = 16" by (simp add: REFERENCE_POTENTIALS_def)
  show "distinct (keys REFERENCE_POTENTIALS)" by (rule distinct_keys)
  show "getitem REFERENCE_POTENTIALS ''SHE (Standard Hydrogen)'' = Inr (Fin False 0 (- 1074))"
    by (rule getitem_SHE)
  show "valof (Fin False 0 (- 1074)) = 0" by simp
  have vals: "float_of_decimal 0 3 = Fin False 0 (- 1074)"
    "float_of_decimal 241 3 = Fin False 8682940081570316 (- 55)"
    "float_of_decimal 250 3 = Fin False 4503599627370496 (- 54)"
    "float_of_decimal 280 3 = Fin False 5044031582654956 (- 54)"
    "float_of_decimal 334 3 = Fin False 6016809102166983 (- 54)"
    "float_of_decimal 197 3 = Fin False 7097673012735902 (- 55)"
    "float_of_decimal 205 3 = Fin False 7385903388887613 (- 55)"
    "float_of_decimal 210 3 = Fin False 7566047373982433 (- 55)"
    "float_of_decimal 288 3 = Fin False 5188146770730811 (- 54)"
    "float_of_decimal 682 3 = Fin False 6142909891733357 (- 53)"
    "float_of_decimal 674 3 = Fin False 6070852297695429 (- 53)"
    "float_of_decimal 640 3 = Fin False 5764607523034235 (- 53)"
    "float_of_decimal 98 3 = Fin False 7061644215716938 (- 56)"
    "float_of_decimal 95 3 = Fin False 6845471433603154 (- 56)"
    "float_of_decimal 654 3 = Fin False 5890708312600609 (- 53)"
    by (simp_all add: float_eval)
  show "list_all2
        (\<lambda>k (name, n). k = name
           \<and> getitem REFERENCE_POTENTIALS k = Inr (float_of_decimal n 3)
           \<and> is_double (float_of_decimal n 3) \<and> is_finite (float_of_decimal n 3)
           \<and> \<bar>valof (float_of_decimal n 3) - real n / 1000\<bar> \<le> 1 / 2 ^ 54)
        (keys REFERENCE_POTENTIALS)
        [(''NHE (Normal Hydrogen)'', 0),
         (''SHE (Standard Hydrogen)'', 0),
         (''Calomel (Sat'd KCl)'', 241),
         (''Calomel (3.5M KCl)'', 250),
         (''Calomel (1M KCl)'', 280),
         (''Calomel (0.1M KCl)'', 334),
         (''Ag/AgCl (Sat'd KCl)'', 197),
         (''Ag/AgCl (3.5M KCl)'', 205),
         (''Ag/AgCl (3M KCl)'', 210),
         (''Ag/AgCl (0.1M KCl)'', 288),
         (''Mercury/Mercurous Sulfate (0.5M H'' @ [CHR 0xE2, CHR 0x82, CHR 0x82] @ ''SO''
            @ [CHR 0xE2, CHR 0x82, CHR 0x84] @ '')'', 682),
         (''Mercury/Mercurous Sulfate (1M H'' @ [CHR 0xE2, CHR 0x82, CHR 0x82] @ ''SO''
            @ [CHR 0xE2, CHR 0x82, CHR 0x84] @ '')'', 674),
         (''Mercury/Mercurous Sulfate (Sat'd K'' @ [CHR 0xE2, CHR 0x82, CHR 0x82] @ ''SO''
            @ [CHR 0xE2, CHR 0x82, CHR 0x84] @ '')'', 640),
         (''Hg/HgO (1M NaOH)'', 98),
         (''Hg/HgO (20% KOH)'', 95),
         (''Silver/Silver Sulfate (Sat'd K'' @ [CHR 0xE2, CHR 0x82, CHR 0x82] @ ''SO''
            @ [CHR 0xE2, CHR 0x82, CHR 0x84] @ '')'', 654)]"
    by (simp add: keys_def getitem_def REFERENCE_POTENTIALS_eval vals power_int_minus_divide)
qed

section \<open>Identity and round trip\<close>

text \<open>
  C3, as stated, fails: 0.350 converted from Ag/AgCl (saturated KCl) to the same
  electrode is 0.3499999999999999, the double just below 0.350.
\<close>

theorem identity_not_exact:
  "''Ag/AgCl (Sat'd KCl)'' \<in> set (keys REFERENCE_POTENTIALS)
   \<and> is_finite (float_of_decimal 35 2)
   \<and> convert_potential (float_of_decimal 35 2) ''Ag/AgCl (Sat'd KCl)'' ''Ag/AgCl (Sat'd KCl)''
       = Inr (Fin False 6305039478318693 (- 54))
   \<and> \<not> float_eq (Fin False 6305039478318693 (- 54)) (float_of_decimal 35 2)"
  by (simp add: default_keys float_035 same_electrode_default signed_def)

text \<open>
  C3, amended. For every electrode of the table and every finite potential, converting to
  the same electrode gives a finite float within \<open>(|v| + 1) / 2^51\<close> of the potential;
  for the electrodes whose offset is 0.000 (NHE and SHE) the result compares equal to it.
\<close>

theorem identity_within_rounding:
  assumes R: "R \<in> set (keys REFERENCE_POTENTIALS)"
    and v: "is_double v" "is_finite v"
  shows "\<exists>r. convert_potential v R R = Inr r \<and> is_finite r
            \<and> \<bar>valof r - valof v\<bar> \<le> (\<bar>valof v\<bar> + 1) / 2 ^ 51
            \<and> (getitem REFERENCE_POTENTIALS R = Inr (Fin False 0 (- 1074)) \<longrightarrow> float_eq r v)"
proof -
  from key_offset [OF R] obtain a where
    a: "getitem REFERENCE_POTENTIALS R = Inr a" "is_double a" "is_finite a"
       "0 \<le> valof a" "valof a \<le> 1"
    by blast
  then have a1: "\<bar>valof a\<bar> \<le> 1" by simp
  define r1 where "r1 = fadd v a"
  define r2 where "r2 = fsub r1 a"
  have c: "convert_potential v R R = Inr r2"
    unfolding r2_def r1_def by (rule convert_potential_eq [OF a(1) a(1)])
  from fadd_offset [OF v a(2,3) a1]
  have s1: "is_double r1" "is_finite r1"
    "\<bar>valof r1 - (valof v + valof a)\<bar> * 2 ^ 53 \<le> \<bar>valof v + valof a\<bar>"
    unfolding r1_def by blast+
  from fsub_offset [OF s1(1,2) a(2,3) a1]
  have s2: "is_finite r2" "\<bar>valof r2 - (valof r1 - valof a)\<bar> * 2 ^ 53 \<le> \<bar>valof r1 - valof a\<bar>"
    unfolding r2_def by blast+
  from s1(3) s2(2) a(4,5) have "\<bar>valof r2 - valof v\<bar> * 2 ^ 51 \<le> \<bar>valof v\<bar> + 1"
    by (rule same_electrode_real)
  then have b: "\<bar>valof r2 - valof v\<bar> \<le> (\<bar>valof v\<bar> + 1) / 2 ^ 51"
    by (simp add: le_divide_eq)
  have "float_eq r2 v" if z: "getitem REFERENCE_POTENTIALS R = Inr (Fin False 0 (- 1074))"
  proof -
    from z a(1) have "a = Fin False 0 (- 1074)" by simp
    moreover from v(2) have "\<not> is_nan v" by (cases v) simp_all
    ultimately show ?thesis
      unfolding r2_def r1_def using zero_offset_roundtrip [OF v(1)] by simp
  qed
  with c s2(1) b show ?thesis by blast
qed

theorem identity_within_rounding_witness:
  "''SHE (Standard Hydrogen)'' \<in> set (keys REFERENCE_POTENTIALS)
   \<and> is_double (float_of_decimal 35 2) \<and> is_finite (float_of_decimal 35 2)
   \<and> getitem REFERENCE_POTENTIALS ''SHE (Standard Hydrogen)'' = Inr (Fin False 0 (- 1074))
   \<and> (\<exists>r. convert_potential (float_of_decimal 35 2) ''SHE (Standard Hydrogen)''
              ''SHE (Standard Hydrogen)'' = Inr r
          \<and> is_finite r
          \<and> \<bar>valof r - valof (float_of_decimal 35 2)\<bar>
               \<le> (\<bar>valof (float_of_decimal 35 2)\<bar> + 1) / 2 ^ 51
          \<and> float_eq r (float_of_decimal 35 2))"
proof -
  have d: "is_double (float_of_decimal 35 2)" and f: "is_finite (float_of_decimal 35 2)"
    by (simp_all add: float_035)
  from identity_within_rounding [OF default_keys(2) d f] getitem_SHE default_keys(2) d f
  show ?thesis by blast
qed

text \<open>
  C4. For every two electrodes of the table and every finite potential, converting from
  the first to the second and back gives a finite float within \<open>(|v| + 1) / 2^50\<close> of
  the potential: a few units in the last place of a number of the size of \<open>v\<close>, or of 1
  when \<open>v\<close> is smaller.
\<close>

theorem round_trip_within_rounding:
  assumes A: "A \<in> set (keys REFERENCE_POTENTIALS)"
    and B: "B \<in> set (keys REFERENCE_POTENTIALS)"
    and v: "is_double v" "is_finite v"
  shows "\<exists>w r. convert_potential v A B = Inr w \<and> convert_potential w B A = Inr r
            \<and> is_finite w \<and> is_finite r
            \<and> \<bar>valof r - valof v\<bar> \<le> (\<bar>valof v\<bar> + 1) / 2 ^ 50"
proof -
  from key_offset [OF A] obtain a where
    a: "getitem REFERENCE_POTENTIALS A = Inr a" "is_double a" "is_finite a"
       "0 \<le> valof a" "valof a \<le> 1"
    by blast
  from key_offset [OF B] obtain b where
    b: "getitem REFERENCE_POTENTIALS B = Inr b" "is_double b" "is_finite b"
       "0 \<le> valof b" "valof b \<le> 1"
    by blast
  from a b have a1: "\<bar>valof a\<bar> \<le> 1" and b1: "\<bar>valof b\<bar> \<le> 1" by simp_all
  define r1 where "r1 = fadd v a"
  define r2 where "r2 = fsub r1 b"
  define r3 where "r3 = fadd r2 b"
  define r4 where "r4 = fsub r3 a"
  have c1: "convert_potential v A B = Inr r2"
    unfolding r2_def r1_def by (rule convert_potential_eq [OF a(1) b(1)])
  have c2: "convert_potential r2 B A = Inr r4"
    unfolding r4_def r3_def by (rule convert_potential_eq [OF b(1) a(1)])
  from fadd_offset [OF v a(2,3) a1]
  have s1: "is_double r1" "is_finite r1"
    "\<bar>valof r1 - (valof v + valof a)\<bar> * 2 ^ 53 \<le> \<bar>valof v + valof a\<bar>"
    unfolding r1_def by blast+
  from fsub_offset [OF s1(1,2) b(2,3) b1]
  have s2: "is_double r2" "is_finite r2"
    "\<bar>valof r2 - (valof r1 - valof b)\<bar> * 2 ^ 53 \<le> \<bar>valof r1 - valof b\<bar>"
    unfolding r2_def by blast+
  from fadd_offset [OF s2(1,2) b(2,3) b1]
  have s3: "is_double r3" "is_finite r3"
    "\<bar>valof r3 - (valof r2 + valof b)\<bar> * 2 ^ 53 \<le> \<bar>valof r2 + valof b\<bar>"
    unfolding r3_def by blast+
  from fsub_offset [OF s3(1,2) a(2,3) a1]
  have s4: "is_finite r4"
    "\<bar>valof r4 - (valof r3 - valof a)\<bar> * 2 ^ 53 \<le> \<bar>valof r3 - valof a\<bar>"
    unfolding r4_def by blast+
  from s1(3) s2(3) s3(3) s4(2) a(4,5) b(4,5)
  have "\<bar>valof r4 - valof v\<bar> * 2 ^ 50 \<le> \<bar>valof v\<bar> + 1"
    by (rule round_trip_real)
  then have bd: "\<bar>valof r4 - valof v\<bar> \<le> (\<bar>valof v\<bar> + 1) / 2 ^ 50"
    by (simp add: le_divide_eq)
  from c1 c2 s2(2) s4(1) bd show ?thesis by blast
qed

theorem round_trip_within_rounding_witness:
  "''Ag/AgCl (Sat'd KCl)'' \<in> set (keys REFERENCE_POTENTIALS)
   \<and> ''SHE (Standard Hydrogen)'' \<in> set (keys REFERENCE_POTENTIALS)
   \<and> is_double (float_of_decimal 35 2) \<and> is_finite (float_of_decimal 35 2)
   \<and> (\<exists>w r. convert_potential (float_of_decimal 35 2) ''Ag/AgCl (Sat'd KCl)''
                ''SHE (Standard Hydrogen)'' = Inr w
            \<and> convert_potential w ''SHE (Standard Hydrogen)'' ''Ag/AgCl (Sat'd KCl)'' = Inr r
            \<and> is_finite w \<and> is_finite r
            \<and> \<bar>valof r - valof (float_of_decimal 35 2)\<bar>
                 \<le> (\<bar>valof (float_of_decimal 35 2)\<bar> + 1) / 2 ^ 50)"
proof -
  have d: "is_double (float_of_decimal 35 2)" and f: "is_finite (float_of_decimal 35 2)"
    by (simp_all add: float_035)
  from round_trip_within_rounding [OF default_keys(1) default_keys(2) d f]
    default_keys(1) default_keys(2) d f
  show ?thesis by blast
qed

section \<open>Worked example\<close>

text \<open>
  C5, as stated, fails: converting the double 0.350 from Ag/AgCl (saturated KCl) to SHE
  gives 0.5469999999999999, the double just below the double 0.547, and \<^verbatim>\<open>==\<close> between
  the two is false.
\<close>

theorem worked_example_not_exact:
  "convert_potential (float_of_decimal 35 2) ''Ag/AgCl (Sat'd KCl)'' ''SHE (Standard Hydrogen)''
     = Inr (Fin False 4926937992343322 (- 53))
   \<and> \<not> float_eq (Fin False 4926937992343322 (- 53)) (float_of_decimal 547 3)"
  by (simp add: float_035 float_0547 default_conversion signed_def)

text \<open>
  C5, amended. The conversion of 0.350 from Ag/AgCl (saturated KCl) to SHE is within
  \<open>2^-52\<close> of 0.547 and is displayed, with three decimals, as 0.547; the conversion of
  0.547 back is within \<open>2^-52\<close> of 0.350 and is displayed as 0.350.
\<close>

theorem worked_example_within_rounding:
  "convert_potential (float_of_decimal 35 2) ''Ag/AgCl (Sat'd KCl)'' ''SHE (Standard Hydrogen)''
     = Inr (Fin False 4926937992343322 (- 53))
   \<and> \<bar>valof (Fin False 4926937992343322 (- 53)) - 547 / 1000\<bar> \<le> 1 / 2 ^ 52
   \<and> format_3f (Fin False 4926937992343322 (- 53)) = ''0.547''
   \<and> convert_potential (float_of_decimal 547 3) ''SHE (Standard Hydrogen)'' ''Ag/AgCl (Sat'd KCl)''
     = Inr (Fin False 6305039478318695 (- 54))
   \<and> \<bar>valof (Fin False 6305039478318695 (- 54)) - 350 / 1000\<bar> \<le> 1 / 2 ^ 52
   \<and> format_3f (Fin False 6305039478318695 (- 54)) = ''0.350''"
proof (intro conjI)
  show "convert_potential (float_of_decimal 35 2) ''Ag/AgCl (Sat'd KCl)''
      ''SHE (Standard Hydrogen)'' = Inr (Fin False 4926937992343322 (- 53))"
    by (simp add: float_035 default_conversion)
  show "convert_potential (float_of_decimal 547 3) ''SHE (Standard Hydrogen)''
      ''Ag/AgCl (Sat'd KCl)'' = Inr (Fin False 6305039478318695 (- 54))"
    by (simp add: float_0547 reverse_conversion)
  show "\<bar>valof (Fin False 4926937992343322 (- 53)) - 547 / 1000\<bar> \<le> 1 / 2 ^ 52"
    by (simp add: power_int_minus_divide)
  show "\<bar>valof (Fin False 6305039478318695 (- 54)) - 350 / 1000\<bar> \<le> 1 / 2 ^ 52"
    by (simp add: power_int_minus_divide)
  show "format_3f (Fin False 4926937992343322 (- 53)) = ''0.547''" by (rule format_0547)
  show "format_3f (Fin False 6305039478318695 (- 54)) = ''0.350''" by (rule format_035_up)
qed

section \<open>NHE to SHE\<close>

text \<open>
  C6, as stated, fails at NaN: the conversion of NaN from NHE to SHE is NaN, and \<^verbatim>\<open>==\<close>
  is false between NaN and NaN.
\<close>

theorem nhe_to_she_nan:
  "convert_potential NaN ''NHE (Normal Hydrogen)'' ''SHE (Standard Hydrogen)'' = Inr NaN
   \<and> \<not> float_eq NaN NaN"
  by (simp add: convert_potential_eq [OF getitem_NHE getitem_SHE] fsub_def fadd.simps)

text \<open>
  C6, amended. For every potential that is a number, finite or infinite, the conversion
  from NHE to SHE compares equal (\<^verbatim>\<open>==\<close>) to the potential.
\<close>

theorem nhe_to_she_identity:
  assumes "is_double x" and "\<not> is_nan x"
  shows "\<exists>r. convert_potential x ''NHE (Normal Hydrogen)'' ''SHE (Standard Hydrogen)'' = Inr r
            \<and> float_eq r x"
  using zero_offset_roundtrip [OF assms]
  by (simp add: convert_potential_eq [OF getitem_NHE getitem_SHE])

theorem nhe_to_she_identity_witness:
  "is_double (float_of_decimal 35 2) \<and> \<not> is_nan (float_of_decimal 35 2)
   \<and> convert_potential (float_of_decimal 35 2) ''NHE (Normal Hydrogen)''
        ''SHE (Standard Hydrogen)'' = Inr (float_of_decimal 35 2)
   \<and> float_eq (float_of_decimal 35 2) (float_of_decimal 35 2)"
proof -
  have d: "is_double (float_of_decimal 35 2)" and n: "\<not> is_nan (float_of_decimal 35 2)"
    by (simp_all add: float_035)
  have c: "convert_potential (float_of_decimal 35 2) ''NHE (Normal Hydrogen)''
        ''SHE (Standard Hydrogen)'' = Inr (float_of_decimal 35 2)"
    by (simp add: float_035 convert_potential_eq [OF getitem_NHE getitem_SHE] float_eval
        fadd.simps)
  from nhe_to_she_identity [OF d n] c d n show ?thesis by simp
qed

section \<open>Failure of the converter\<close>

text \<open>
  C7. The converter fails exactly when one of the two names is not a key of the table, and
  then with a KeyError (the table's unknown-electrode error) that names the first missing
  key. The Convert handler then returns the session state it was given, so nothing is
  appended to the history; and a run of the whole script that ends in an exception ends
  in a KeyError and with the history it started with.
\<close>

theorem unknown_electrode_only_failure:
  "((\<exists>err. convert_potential p f t = Inl err) \<longleftrightarrow>
      (f \<notin> set (keys REFERENCE_POTENTIALS) \<or> t \<notin> set (keys REFERENCE_POTENTIALS)))
   \<and> (\<forall>err. convert_potential p f t = Inl err \<longrightarrow>
         err = KeyError (if f \<notin> set (keys REFERENCE_POTENTIALS) then f else t)
         \<and> convert_handler p f t now ss = (ss, Inl err))
   \<and> (\<forall>err. snd (script w ss) = Raised err \<longrightarrow>
         (\<exists>k. err = KeyError k) \<and> history (fst (script w ss)) = history ss)"
proof (intro conjI allI impI)
  show "(\<exists>err. convert_potential p f t = Inl err) \<longleftrightarrow>
      (f \<notin> set (keys REFERENCE_POTENTIALS) \<or> t \<notin> set (keys REFERENCE_POTENTIALS))"
    using getitem_cases [of f REFERENCE_POTENTIALS] getitem_cases [of t REFERENCE_POTENTIALS]
    by (auto simp: convert_potential_def)
next
  fix err assume "convert_potential p f t = Inl err"
  then show "err = KeyError (if f \<notin> set (keys REFERENCE_POTENTIALS) then f else t)"
    using getitem_cases [of f REFERENCE_POTENTIALS] getitem_cases [of t REFERENCE_POTENTIALS]
    by (auto simp: convert_potential_def)
next
  fix err assume "convert_potential p f t = Inl err"
  then show "convert_handler p f t now ss = (ss, Inl err)"
    by (simp add: convert_handler_def)
next
  fix err assume r: "snd (script w ss) = Raised err"
  define fr where "fr = (case ss_from_ref ss of Some f \<Rightarrow> f | None \<Rightarrow> from_selectbox w)"
  define tr where "tr = (case ss_to_ref ss of Some t \<Rightarrow> t | None \<Rightarrow> to_selectbox w)"
  define ss1 where "ss1 = ss\<lparr>ss_from_ref := None, ss_to_ref := None\<rparr>"
  from r have ns: "\<not> swap_button w" by (auto simp: script_def)
  have cb: "convert_button w"
  proof (rule ccontr)
    assume "\<not> convert_button w"
    with ns have "script w ss = history_section w (ss\<lparr>ss_from_ref := None, ss_to_ref := None\<rparr>)"
      by (simp add: script_def Let_def)
    with r show False by (simp add: history_section_not_raised)
  qed
  from ns cb have s: "script w ss =
     (case convert_handler (potential_value w) fr tr (clock w) ss1 of
        (ss2, Inl err) \<Rightarrow> (ss2, Raised err)
      | (ss2, Inr converted_value) \<Rightarrow> history_section w ss2)"
    by (simp add: script_def fr_def tr_def ss1_def Let_def)
  show "\<exists>k. err = KeyError k"
  proof (cases "convert_potential (potential_value w) fr tr")
    case (Inl e)
    with s r have "e = err" by (simp add: convert_handler_def)
    with Inl show ?thesis
      using getitem_cases [of fr REFERENCE_POTENTIALS] getitem_cases [of tr REFERENCE_POTENTIALS]
      by (auto simp: convert_potential_def)
  next
    case (Inr v)
    with s r show ?thesis
      by (simp add: convert_handler_def Let_def history_section_not_raised)
  qed
  show "history (fst (script w ss)) = history ss"
  proof (cases "convert_potential (potential_value w) fr tr")
    case (Inl e)
    with s show ?thesis by (simp add: convert_handler_def ss1_def)
  next
    case (Inr v)
    with s r show ?thesis
      by (simp add: convert_handler_def Let_def history_section_not_raised)
  qed
qed

theorem unknown_electrode_only_failure_witness:
  "''Unobtainium'' \<notin> set (keys REFERENCE_POTENTIALS)
   \<and> convert_potential (float_of_decimal 35 2) ''Unobtainium'' ''SHE (Standard Hydrogen)''
       = Inl (KeyError ''Unobtainium'')
   \<and> convert_handler (float_of_decimal 35 2) ''Unobtainium'' ''SHE (Standard Hydrogen)''
       ''12:00:00'' \<lparr>ss_from_ref = None, ss_to_ref = None, conversion_history = Some []\<rparr>
       = (\<lparr>ss_from_ref = None, ss_to_ref = None, conversion_history = Some []\<rparr>,
          Inl (KeyError ''Unobtainium''))
   \<and> snd (script \<lparr>potential_value = float_of_decimal 35 2, from_selectbox = ''Unobtainium'',
                  to_selectbox = ''SHE (Standard Hydrogen)'', swap_button = False,
                  convert_button = True, clear_button = False, clock = ''12:00:00''\<rparr>
          \<lparr>ss_from_ref = None, ss_to_ref = None, conversion_history = Some []\<rparr>)
       = Raised (KeyError ''Unobtainium'')
   \<and> history (fst (script \<lparr>potential_value = float_of_decimal 35 2,
                  from_selectbox = ''Unobtainium'',
                  to_selectbox = ''SHE (Standard Hydrogen)'', swap_button = False,
                  convert_button = True, clear_button = False, clock = ''12:00:00''\<rparr>
          \<lparr>ss_from_ref = None, ss_to_ref = None, conversion_history = Some []\<rparr>))
       = []"
proof -
  let ?p = "float_of_decimal 35 2"
  let ?ss = "\<lparr>ss_from_ref = None, ss_to_ref = None, conversion_history = Some []\<rparr>"
  let ?w = "\<lparr>potential_value = float_of_decimal 35 2, from_selectbox = ''Unobtainium'',
                  to_selectbox = ''SHE (Standard Hydrogen)'', swap_button = False,
                  convert_button = True, clear_button = False, clock = ''12:00:00''\<rparr>"
  note t = unknown_electrode_only_failure [of ?p "''Unobtainium''" "''SHE (Standard Hydrogen)''"
      "''12:00:00''" ?ss ?w]
  from t default_keys(4) obtain err
    where e: "convert_potential ?p ''Unobtainium'' ''SHE (Standard Hydrogen)'' = Inl err"
    by blast
  with t default_keys(4) have k: "err = KeyError ''Unobtainium''" by simp
  from e k have r: "snd (script ?w ?ss) = Raised (KeyError ''Unobtainium'')"
    by (simp add: script_def convert_handler_def)
  with t have "history (fst (script ?w ?ss)) = history ?ss" by blast
  then have h: "history (fst (script ?w ?ss)) = []" by (simp add: history_def)
  from t e k default_keys(4) r h show ?thesis by simp
qed

section \<open>The conversion history\<close>

text \<open>
  C8. A successful conversion makes the Convert handler append exactly one record, built
  from this conversion, at the end of the history: the earlier entries stay, in order, and
  the length grows by one. The same holds for a whole run of the script in which Convert
  was clicked (and neither Swap nor Clear). The Clear handler leaves the empty history,
  whatever was there, and so does a run of the script in which Clear was clicked.
\<close>

theorem history_append_and_clear:
  "(\<forall>v. convert_potential p f t = Inr v \<longrightarrow>
      history (fst (convert_handler p f t now ss)) =
        history ss @ [\<lparr>Input_Potential = format_3f p @ '' V'', From_Reference = f,
                       To_Reference = t, Result = format_3f v @ '' V'', Timestamp = now\<rparr>]
      \<and> length (history (fst (convert_handler p f t now ss))) = length (history ss) + 1)
   \<and> history (clear_handler ss) = []
   \<and> length (history (clear_handler ss)) = 0
   \<and> (\<not> swap_button w \<and> convert_button w \<and> \<not> clear_button w
        \<and> snd (script w ss) = Completed \<longrightarrow>
        (\<exists>entry. history (fst (script w ss)) = history ss @ [entry]))
   \<and> (\<not> swap_button w \<and> \<not> convert_button w \<and> clear_button w \<longrightarrow>
        history (fst (script w ss)) = [])"
proof (intro conjI allI impI)
  fix v assume v: "convert_potential p f t = Inr v"
  from convert_handler_success [OF v]
  show "history (fst (convert_handler p f t now ss)) =
        history ss @ [\<lparr>Input_Potential = format_3f p @ '' V'', From_Reference = f,
                       To_Reference = t, Result = format_3f v @ '' V'', Timestamp = now\<rparr>]" .
  then show "length (history (fst (convert_handler p f t now ss))) = length (history ss) + 1"
    by simp
next
  show "history (clear_handler ss) = []" by (simp add: clear_handler_def)
  show "length (history (clear_handler ss)) = 0" by (simp add: clear_handler_def)
next
  assume a: "\<not> swap_button w \<and> convert_button w \<and> \<not> clear_button w
        \<and> snd (script w ss) = Completed"
  define fr where "fr = (case ss_from_ref ss of Some f \<Rightarrow> f | None \<Rightarrow> from_selectbox w)"
  define tr where "tr = (case ss_to_ref ss of Some t \<Rightarrow> t | None \<Rightarrow> to_selectbox w)"
  define ss1 where "ss1 = ss\<lparr>ss_from_ref := None, ss_to_ref := None\<rparr>"
  from a have s: "script w ss =
     (case convert_handler (potential_value w) fr tr (clock w) ss1 of
        (ss2, Inl err) \<Rightarrow> (ss2, Raised err)
      | (ss2, Inr converted_value) \<Rightarrow> history_section w ss2)"
    by (simp add: script_def fr_def tr_def ss1_def Let_def)
  show "\<exists>entry. history (fst (script w ss)) = history ss @ [entry]"
  proof (cases "convert_potential (potential_value w) fr tr")
    case (Inl e)
    with s a show ?thesis by (simp add: convert_handler_def)
  next
    case (Inr v)
    obtain ss2 where c: "convert_handler (potential_value w) fr tr (clock w) ss1 = (ss2, Inr v)"
      using Inr by (simp add: convert_handler_def Let_def)
    from convert_handler_success [OF Inr, of "clock w" ss1] c
    have h: "history ss2 = history ss @
        [\<lparr>Input_Potential = format_3f (potential_value w) @ '' V'', From_Reference = fr,
          To_Reference = tr, Result = format_3f v @ '' V'', Timestamp = clock w\<rparr>]"
      by (simp add: ss1_def)
    from s c a have "fst (script w ss) = ss2" by (simp add: history_section_def)
    with h show ?thesis by blast
  qed
next
  assume a: "\<not> swap_button w \<and> \<not> convert_button w \<and> clear_button w"
  then have "script w ss = history_section w (ss\<lparr>ss_from_ref := None, ss_to_ref := None\<rparr>)"
    by (simp add: script_def Let_def)
  with a show "history (fst (script w ss)) = []"
    by (simp add: history_section_def clear_handler_def)
qed

theorem history_append_and_clear_witness:
  "convert_potential (float_of_decimal 35 2) ''Ag/AgCl (Sat'd KCl)'' ''SHE (Standard Hydrogen)''
     = Inr (Fin False 4926937992343322 (- 53))
   \<and> history (fst (convert_handler (float_of_decimal 35 2) ''Ag/AgCl (Sat'd KCl)''
        ''SHE (Standard Hydrogen)'' ''12:00:00''
        \<lparr>ss_from_ref = None, ss_to_ref = None, conversion_history = None\<rparr>))
     = [\<lparr>Input_Potential = ''0.350 V'', From_Reference = ''Ag/AgCl (Sat'd KCl)'',
         To_Reference = ''SHE (Standard Hydrogen)'', Result = ''0.547 V'',
         Timestamp = ''12:00:00''\<rparr>]
   \<and> snd (script \<lparr>potential_value = float_of_decimal 35 2,
           from_selectbox = ''Ag/AgCl (Sat'd KCl)'', to_selectbox = ''SHE (Standard Hydrogen)'',
           swap_button = False, convert_button = True, clear_button = False,
           clock = ''12:00:00''\<rparr>
          \<lparr>ss_from_ref = None, ss_to_ref = None, conversion_history = None\<rparr>) = Completed
   \<and> length (history (fst (script \<lparr>potential_value = float_of_decimal 35 2,
           from_selectbox = ''Ag/AgCl (Sat'd KCl)'', to_selectbox = ''SHE (Standard Hydrogen)'',
           swap_button = False, convert_button = True, clear_button = False,
           clock = ''12:00:00''\<rparr>
          \<lparr>ss_from_ref = None, ss_to_ref = None, conversion_history = None\<rparr>))) = 1
   \<and> history (fst (script \<lparr>potential_value = float_of_decimal 35 2,
           from_selectbox = ''Ag/AgCl (Sat'd KCl)'', to_selectbox = ''SHE (Standard Hydrogen)'',
           swap_button = False, convert_button = False, clear_button = True,
           clock = ''12:00:01''\<rparr>
          \<lparr>ss_from_ref = None, ss_to_ref = None, conversion_history = Some
            [\<lparr>Input_Potential = ''0.350 V'', From_Reference = ''Ag/AgCl (Sat'd KCl)'',
              To_Reference = ''SHE (Standard Hydrogen)'', Result = ''0.547 V'',
              Timestamp = ''12:00:00''\<rparr>]\<rparr>)) = []"
proof -
  let ?ss = "\<lparr>ss_from_ref = None, ss_to_ref = None, conversion_history = None\<rparr>"
  let ?w = "\<lparr>potential_value = float_of_decimal 35 2,
           from_selectbox = ''Ag/AgCl (Sat'd KCl)'', to_selectbox = ''SHE (Standard Hydrogen)'',
           swap_button = False, convert_button = True, clear_button = False,
           clock = ''12:00:00''\<rparr>"
  let ?w' = "\<lparr>potential_value = float_of_decimal 35 2,
           from_selectbox = ''Ag/AgCl (Sat'd KCl)'', to_selectbox = ''SHE (Standard Hydrogen)'',
           swap_button = False, convert_button = False, clear_button = True,
           clock = ''12:00:01''\<rparr>"
  let ?ss' = "\<lparr>ss_from_ref = None, ss_to_ref = None, conversion_history = Some
            [\<lparr>Input_Potential = ''0.350 V'', From_Reference = ''Ag/AgCl (Sat'd KCl)'',
              To_Reference = ''SHE (Standard Hydrogen)'', Result = ''0.547 V'',
              Timestamp = ''12:00:00''\<rparr>]\<rparr>"
  have c: "convert_potential (float_of_decimal 35 2) ''Ag/AgCl (Sat'd KCl)''
      ''SHE (Standard Hydrogen)'' = Inr (Fin False 4926937992343322 (- 53))"
    by (simp add: float_035 default_conversion)
  have h: "history ?ss = []" by (simp add: history_def)
  have r: "snd (script ?w ?ss) = Completed"
    by (simp add: script_def history_section_def history_def convert_handler_def
        float_035 default_conversion format_035 format_0547 del: format_3f.simps)
  from history_append_and_clear [of "float_of_decimal 35 2" "''Ag/AgCl (Sat'd KCl)''"
      "''SHE (Standard Hydrogen)''" "''12:00:00''" ?ss ?w] c h
  have a: "history (fst (convert_handler (float_of_decimal 35 2) ''Ag/AgCl (Sat'd KCl)''
        ''SHE (Standard Hydrogen)'' ''12:00:00'' ?ss))
     = [\<lparr>Input_Potential = ''0.350 V'', From_Reference = ''Ag/AgCl (Sat'd KCl)'',
         To_Reference = ''SHE (Standard Hydrogen)'', Result = ''0.547 V'',
         Timestamp = ''12:00:00''\<rparr>]"
    by (simp add: float_035 format_035 format_0547 del: format_3f.simps)
  from history_append_and_clear [of "float_of_decimal 35 2" "''Ag/AgCl (Sat'd KCl)''"
      "''SHE (Standard Hydrogen)''" "''12:00:00''" ?ss ?w] r h
  obtain entry where "history (fst (script ?w ?ss)) = [entry]" by auto
  then have b: "length (history (fst (script ?w ?ss))) = 1" by simp
  from history_append_and_clear [of "float_of_decimal 35 2" "''Ag/AgCl (Sat'd KCl)''"
      "''SHE (Standard Hydrogen)''" "''12:00:00''" ?ss' ?w']
  have d: "history (fst (script ?w' ?ss')) = []" by simp
  from c a r b d show ?thesis by (simp only: simp_thms)
qed

section \<open>The Swap button\<close>

text \<open>
  C9. Three consecutive runs of the script, from the default selections (Ag/AgCl
  saturated KCl to SHE) and an empty session: the run in which Swap is clicked stores the
  exchanged pair and asks for a rerun; the rerun, in which no button is clicked, takes the
  stored pair for its two local names and deletes it; the next run, in which Convert is
  clicked, finds nothing stored and converts from the select boxes as they stand, from
  Ag/AgCl to SHE. The exchange does not reach the conversion.
\<close>

theorem swap_does_not_reach_conversion:
  "script \<lparr>potential_value = float_of_decimal 35 2,
           from_selectbox = ''Ag/AgCl (Sat'd KCl)'', to_selectbox = ''SHE (Standard Hydrogen)'',
           swap_button = True, convert_button = False, clear_button = False,
           clock = ''12:00:00''\<rparr>
     \<lparr>ss_from_ref = None, ss_to_ref = None, conversion_history = None\<rparr>
   = (\<lparr>ss_from_ref = Some ''SHE (Standard Hydrogen)'',
       ss_to_ref = Some ''Ag/AgCl (Sat'd KCl)'', conversion_history = None\<rparr>, Rerun)
   \<and> script \<lparr>potential_value = float_of_decimal 35 2,
           from_selectbox = ''Ag/AgCl (Sat'd KCl)'', to_selectbox = ''SHE (Standard Hydrogen)'',
           swap_button = False, convert_button = False, clear_button = False,
           clock = ''12:00:01''\<rparr>
     \<lparr>ss_from_ref = Some ''SHE (Standard Hydrogen)'',
       ss_to_ref = Some ''Ag/AgCl (Sat'd KCl)'', conversion_history = None\<rparr>
   = (\<lparr>ss_from_ref = None, ss_to_ref = None, conversion_history = None\<rparr>, Completed)
   \<and> script \<lparr>potential_value = float_of_decimal 35 2,
           from_selectbox = ''Ag/AgCl (Sat'd KCl)'', to_selectbox = ''SHE (Standard Hydrogen)'',
           swap_button = False, convert_button = True, clear_button = False,
           clock = ''12:00:02''\<rparr>
     \<lparr>ss_from_ref = None, ss_to_ref = None, conversion_history = None\<rparr>
   = (\<lparr>ss_from_ref = None, ss_to_ref = None,
       conversion_history = Some
         [\<lparr>Input_Potential = ''0.350 V'', From_Reference = ''Ag/AgCl (Sat'd KCl)'',
           To_Reference = ''SHE (Standard Hydrogen)'', Result = ''0.547 V'',
           Timestamp = ''12:00:02''\<rparr>]\<rparr>, Completed)"
  by (simp add: script_def history_section_def history_def convert_handler_def
      float_035 default_conversion format_035 format_0547 del: format_3f.simps)

section \<open>Safety of the converter\<close>

text \<open>
  C10. With both names in the table, the converter returns a value and raises nothing,
  for every value of the potential, the infinities and NaN among them; what it returns
  is again a double.
\<close>

theorem convert_potential_total:
  assumes "from_ref \<in> set (keys REFERENCE_POTENTIALS)"
    and "to_ref \<in> set (keys REFERENCE_POTENTIALS)"
  shows "\<exists>v. convert_potential p from_ref to_ref = Inr v \<and> (is_double p \<longrightarrow> is_double v)"
proof -
  from assms(1) getitem_cases [of from_ref REFERENCE_POTENTIALS]
  obtain a where a: "getitem REFERENCE_POTENTIALS from_ref = Inr a" by blast
  from assms(2) getitem_cases [of to_ref REFERENCE_POTENTIALS]
  obtain b where b: "getitem REFERENCE_POTENTIALS to_ref = Inr b" by blast
  from a b have c: "convert_potential p from_ref to_ref = Inr (fsub (fadd p a) b)"
    by (simp add: convert_potential_def)
  from table_offsets [OF getitem_in_table [OF a]] have da: "is_double a" by blast
  from table_offsets [OF getitem_in_table [OF b]] have db: "is_double b" by blast
  have "is_double (fsub (fadd p a) b)" if "is_double p"
    unfolding fsub_def using that da db by (intro is_double_fadd) (simp_all add: is_double_fneg)
  with c show ?thesis by blast
qed

theorem convert_potential_total_witness:
  "''Ag/AgCl (Sat'd KCl)'' \<in> set (keys REFERENCE_POTENTIALS)
   \<and> ''SHE (Standard Hydrogen)'' \<in> set (keys REFERENCE_POTENTIALS)
   \<and> is_double NaN
   \<and> convert_potential NaN ''Ag/AgCl (Sat'd KCl)'' ''SHE (Standard Hydrogen)'' = Inr NaN
   \<and> convert_potential (Inf False) ''Ag/AgCl (Sat'd KCl)'' ''SHE (Standard Hydrogen)''
       = Inr (Inf False)"
proof -
  from convert_potential_total [OF default_keys(1) default_keys(2), of NaN]
  obtain v where "convert_potential NaN ''Ag/AgCl (Sat'd KCl)'' ''SHE (Standard Hydrogen)'' = Inr v"
    by blast
  moreover have "convert_potential NaN ''Ag/AgCl (Sat'd KCl)'' ''SHE (Standard Hydrogen)'' = Inr NaN"
    by (simp add: convert_potential_def getitem_default_from getitem_SHE fsub_def fadd.simps)
  moreover have "convert_potential (Inf False) ''Ag/AgCl (Sat'd KCl)'' ''SHE (Standard Hydrogen)''
       = Inr (Inf False)"
    by (simp add: convert_potential_def getitem_default_from getitem_SHE fsub_def fadd.simps)
  ultimately show ?thesis using default_keys(1) default_keys(2) by simp
qed

end
